theory Spec2Isabelle
  imports Main
begin

section \<open>Bug Surgeon: the debug orchestrator of \<^verbatim>\<open>debug_orchestrator.py\<close>\<close>

text \<open>
  A shallow embedding of the parsers, the content fetcher and the two analysis paths of
  class \<^verbatim>\<open>BugSurgeon\<close>. A Python \<^verbatim>\<open>str\<close> is a \<open>string\<close>: a list of
  characters, each \<open>char\<close> standing for the code point of the same number (0 to 255), so
  that \<open>length\<close> is Python's \<^verbatim>\<open>len\<close>. Python's unbounded \<^verbatim>\<open>int\<close> is \<open>int\<close>.
  The model provider and the file provider are parameters (record \<open>env\<close>); an exception
  they raise is a value \<open>Inl e\<close>.
\<close>

subsection \<open>Python's string operations\<close>

definition NL :: char where
  "NL = CHR 0x0A"

text \<open>\<^verbatim>\<open>str.isspace\<close> on one character, for the code points below 256.\<close>

definition isspace :: "char \<Rightarrow> bool" where
  "isspace c =
     (let n = (of_char c :: nat)
      in (9 \<le> n \<and> n \<le> 13) \<or> (28 \<le> n \<and> n \<le> 32) \<or> n = 133 \<or> n = 160)"

text \<open>\<^verbatim>\<open>s.strip()\<close>\<close>

definition strip :: "string \<Rightarrow> string" where
  "strip s = rev (dropWhile isspace (rev (dropWhile isspace s)))"

text \<open>\<^verbatim>\<open>s.startswith(p)\<close>\<close>

fun startswith :: "string \<Rightarrow> string \<Rightarrow> bool" where
  "startswith s [] = True"
| "startswith [] (p # ps) = False"
| "startswith (c # cs) (p # ps) = (c = p \<and> startswith cs ps)"

text \<open>\<^verbatim>\<open>s.split(sep)\<close> for a separator of one character: never the empty list.\<close>

fun split_char :: "char \<Rightarrow> string \<Rightarrow> string list" where
  "split_char sep [] = [[]]"
| "split_char sep (c # cs) =
     (if c = sep then [] # split_char sep cs
      else (case split_char sep cs of
              [] \<Rightarrow> [[c]]
            | w # ws \<Rightarrow> (c # w) # ws))"

text \<open>\<^verbatim>\<open>s.split(sep, 1)\<close>: at most one split, at the first separator.\<close>

fun split_once :: "char \<Rightarrow> string \<Rightarrow> string list" where
  "split_once sep [] = [[]]"
| "split_once sep (c # cs) =
     (if c = sep then [[], cs]
      else (case split_once sep cs of
              [] \<Rightarrow> [[c]]
            | w # ws \<Rightarrow> (c # w) # ws))"

text \<open>\<^verbatim>\<open>sep.join(xs)\<close>\<close>

fun join :: "string \<Rightarrow> string list \<Rightarrow> string" where
  "join sep [] = []"
| "join sep [x] = x"
| "join sep (x # y # ys) = x @ sep @ join sep (y # ys)"

text \<open>
  The first occurrence of a pattern: \<open>partition pat s = Some (before, after)\<close> when
  \<open>s = before @ pat @ after\<close> and \<open>pat\<close> occurs nowhere earlier (\<^verbatim>\<open>str.partition\<close>);
  \<open>None\<close> when the pattern does not occur.
\<close>

fun partition_at :: "string \<Rightarrow> string \<Rightarrow> (string \<times> string) option" where
  "partition_at pat [] = (if pat = [] then Some ([], []) else None)"
| "partition_at pat (c # cs) =
     (if startswith (c # cs) pat then Some ([], drop (length pat) (c # cs))
      else (case partition_at pat cs of
              None \<Rightarrow> None
            | Some (b, a) \<Rightarrow> Some (c # b, a)))"

text \<open>\<^verbatim>\<open>pat in s\<close>\<close>

definition contains :: "string \<Rightarrow> string \<Rightarrow> bool" where
  "contains s pat = (partition_at pat s \<noteq> None)"

text \<open>
  \<^verbatim>\<open>re.search(open + '(.*?)' + close, s, re.DOTALL)\<close>, group 1: the search is leftmost
  and the group is lazy, so the match starts at the first \<open>open\<close> that has a \<open>close\<close>
  after it, which is the first \<open>open\<close> of all (a \<open>close\<close> after a later \<open>open\<close>
  also follows the first one), and the group ends at the first \<open>close\<close> after it. The
  second component is the text after the match.
\<close>

definition re_search_tag :: "string \<Rightarrow> string \<Rightarrow> string \<Rightarrow> (string \<times> string) option" where
  "re_search_tag opn cls s =
     (case partition_at opn s of
        None \<Rightarrow> None
      | Some (_, r) \<Rightarrow> partition_at cls r)"

lemma partition_at_append:
  "partition_at pat s = Some (b, a) \<Longrightarrow> s = b @ pat @ a"
proof (induction s arbitrary: b a)
  case Nil
  then show ?case by (simp split: if_splits)
next
  case (Cons c cs)
  show ?case
  proof (cases "startswith (c # cs) pat")
    case True
    have "startswith t p \<Longrightarrow> t = p @ drop (length p) t" for t p
      by (induction t p rule: startswith.induct) auto
    with True Cons.prems show ?thesis by auto
  next
    case False
    with Cons show ?thesis by (auto split: option.splits)
  qed
qed

lemma partition_at_length:
  "partition_at pat s = Some (b, a) \<Longrightarrow> length a + length pat \<le> length s"
  by (drule partition_at_append) simp

text \<open>
  \<^verbatim>\<open>re.findall(r'<thinking>(.*?)</thinking>', s, re.DOTALL)\<close>: the matches from left to
  right, each search starting where the previous match ended.
\<close>

function thinking_findall :: "string \<Rightarrow> string list" where
  "thinking_findall s =
     (case re_search_tag ''<thinking>'' ''</thinking>'' s of
        None \<Rightarrow> []
      | Some (body, rest) \<Rightarrow> body # thinking_findall rest)"
  by pat_completeness auto
termination
proof (relation "measure length")
  show "wf (measure length)" by simp
next
  fix s :: string and x2 body rest
  assume "re_search_tag ''<thinking>'' ''</thinking>'' s = Some x2" and "(body, rest) = x2"
  then obtain u r where r: "partition_at ''<thinking>'' s = Some (u, r)"
    and b: "partition_at ''</thinking>'' r = Some (body, rest)"
    by (auto simp: re_search_tag_def split: option.splits)
  from partition_at_length [OF r] partition_at_length [OF b]
  show "(rest, s) \<in> measure length" by simp
qed

subsection \<open>The data model\<close>

text \<open>\<^verbatim>\<open>@dataclass class BugAnalysis\<close>\<close>

record BugAnalysis =
  root_cause :: string
  explanation :: string
  file_changes :: "string \<rightharpoonup> string"
  reasoning_trace :: "string list"
  confidence :: string

text \<open>The exceptions the model distinguishes; a provider's error carries its message.\<close>

datatype error = IndexError | ProviderError string

subsection \<open>The response parser\<close>

text \<open>
  \<^verbatim>\<open>_create_fallback_analysis\<close>. \<^verbatim>\<open>response_text.split('.')\<close> is never empty, so
  the guard \<^verbatim>\<open>if sentences\<close> always holds; it is kept as the source has it.
\<close>

definition create_fallback_analysis :: "string \<Rightarrow> BugAnalysis" where
  "create_fallback_analysis response_text =
     (let thinking_matches = thinking_findall response_text;
          reasoning_trace' = map strip thinking_matches;
          sentences = split_char (CHR ''.'') response_text;
          root_cause' = (if sentences \<noteq> [] then hd sentences else ''Analysis provided'')
      in \<lparr> root_cause =
             (if length root_cause' > 200 then take 200 root_cause' @ ''...''
              else root_cause'),
           explanation =
             (if length response_text > 500 then take 500 response_text @ ''...''
              else response_text),
           file_changes = [''analysis.md'' \<mapsto> response_text],
           reasoning_trace = reasoning_trace',
           confidence = ''MEDIUM'' \<rparr>)"

text \<open>\<^verbatim>\<open>xs[i]\<close> for \<open>i \<ge> 0\<close>: out of range raises \<^verbatim>\<open>IndexError\<close>.\<close>

definition py_index :: "'a list \<Rightarrow> nat \<Rightarrow> error + 'a" where
  "py_index xs i = (if i < length xs then Inr (xs ! i) else Inl IndexError)"

text \<open>\<^verbatim>\<open>line.split(':', 1)[1].strip()\<close>\<close>

definition field_value :: "string \<Rightarrow> error + string" where
  "field_value line =
     (case py_index (split_once (CHR '':'') line) 1 of
        Inl e \<Rightarrow> Inl e
      | Inr v \<Rightarrow> Inr (strip v))"

text \<open>
  The body of the loop \<^verbatim>\<open>for line in analysis_text.split('\n')\<close> of
  \<^verbatim>\<open>extract_analysis\<close>, on the variables \<^verbatim>\<open>root_cause\<close>, \<^verbatim>\<open>explanation\<close>, \<^verbatim>\<open>confidence\<close> (primed here: the unprimed names are the record's fields).
\<close>

definition scan_analysis_line ::
  "string \<Rightarrow> string \<times> string \<times> string \<Rightarrow> error + string \<times> string \<times> string" where
  "scan_analysis_line raw vars =
     (case vars of (root_cause', explanation', confidence') \<Rightarrow>
        let line = strip raw
        in if startswith line ''ROOT_CAUSE:'' then
             (case field_value line of
                Inl e \<Rightarrow> Inl e
              | Inr v \<Rightarrow> Inr (v, explanation', confidence'))
           else if startswith line ''EXPLANATION:'' then
             (case field_value line of
                Inl e \<Rightarrow> Inl e
              | Inr v \<Rightarrow> Inr (root_cause', v, confidence'))
           else if startswith line ''CONFIDENCE:'' then
             (case field_value line of
                Inl e \<Rightarrow> Inl e
              | Inr v \<Rightarrow> Inr (root_cause', explanation', v))
           else Inr (root_cause', explanation', confidence'))"

text \<open>A \<^verbatim>\<open>for\<close> loop whose body may raise: the first exception ends it.\<close>

fun for_each :: "('a \<Rightarrow> 's \<Rightarrow> error + 's) \<Rightarrow> 'a list \<Rightarrow> 's \<Rightarrow> error + 's" where
  "for_each body [] s = Inr s"
| "for_each body (x # xs) s =
     (case body x s of
        Inl e \<Rightarrow> Inl e
      | Inr s' \<Rightarrow> for_each body xs s')"

text \<open>
  The \<^verbatim>\<open>try\<close> block of \<^verbatim>\<open>extract_analysis\<close>. The result type is the source's
  \<^verbatim>\<open>Optional[BugAnalysis]\<close>. \<^verbatim>\<open>x or y\<close> on strings is \<open>y\<close> when \<open>x\<close> is empty.
\<close>

definition extract_analysis_try :: "string \<Rightarrow> error + BugAnalysis option" where
  "extract_analysis_try response_text =
     (case re_search_tag ''<analysis>'' ''</analysis>'' response_text of
        None \<Rightarrow> Inr (Some (create_fallback_analysis response_text))
      | Some (analysis_text, _) \<Rightarrow>
          (case for_each scan_analysis_line (split_char NL analysis_text)
                  ([], [], ''MEDIUM'') of
             Inl e \<Rightarrow> Inl e
           | Inr (root_cause', explanation', confidence') \<Rightarrow>
               let solution_text =
                     (case re_search_tag ''<solution>'' ''</solution>'' response_text of
                        Some (body, _) \<Rightarrow> body
                      | None \<Rightarrow> []);
                   thinking_matches = thinking_findall response_text;
                   reasoning_trace' = map strip thinking_matches
               in Inr (Some \<lparr> root_cause =
                                (if root_cause' \<noteq> [] then root_cause'
                                 else ''Analysis completed''),
                              explanation =
                                (if explanation' \<noteq> [] then explanation'
                                 else take 500 response_text @ ''...''),
                              file_changes = [''solution.md'' \<mapsto> solution_text],
                              reasoning_trace = reasoning_trace',
                              confidence = confidence' \<rparr>)))"

text \<open>\<^verbatim>\<open>extract_analysis\<close>: any exception of the block gives the fallback record.\<close>

definition extract_analysis :: "string \<Rightarrow> BugAnalysis option" where
  "extract_analysis response_text =
     (case extract_analysis_try response_text of
        Inl e \<Rightarrow> Some (create_fallback_analysis response_text)
      | Inr r \<Rightarrow> r)"

subsection \<open>Python's integers as text\<close>

definition isdigit :: "char \<Rightarrow> bool" where
  "isdigit c = (let n = (of_char c :: nat) in 48 \<le> n \<and> n \<le> 57)"

definition digit_val :: "char \<Rightarrow> int" where
  "digit_val c = int (of_char c) - 48"

text \<open>Decimal digits, with single underscores allowed between two digits.\<close>

fun int_body_ok :: "string \<Rightarrow> bool" where
  "int_body_ok [] = False"
| "int_body_ok [c] = isdigit c"
| "int_body_ok (c # d # cs) =
     (isdigit c \<and> (if d = CHR ''_'' then int_body_ok cs else int_body_ok (d # cs)))"

text \<open>
  \<^verbatim>\<open>int(s)\<close>: \<open>None\<close> is \<^verbatim>\<open>ValueError\<close>. Surrounding whitespace and one sign are
  accepted; CPython's default limit of 4300 digits
  (\<^verbatim>\<open>sys.int_info.default_max_str_digits\<close>) is the last test.
\<close>

definition py_int :: "string \<Rightarrow> int option" where
  "py_int s =
     (let t = strip s;
          (sign, body) =
             (case t of
                [] \<Rightarrow> (1, [])
              | c # r \<Rightarrow>
                  if c = CHR ''-'' then (- 1, r)
                  else if c = CHR ''+'' then (1, r)
                  else (1, t));
          ds = filter isdigit body
      in if int_body_ok body \<and> length ds \<le> 4300
         then Some (sign * fold (\<lambda>c acc. 10 * acc + digit_val c) ds 0)
         else None)"

text \<open>\<^verbatim>\<open>str(n)\<close> of an integer, as an f-string formats it.\<close>

fun str_nat :: "nat \<Rightarrow> string" where
  "str_nat n =
     (if n < 10 then [char_of (48 + n)]
      else str_nat (n div 10) @ [char_of (48 + n mod 10)])"

definition str_int :: "int \<Rightarrow> string" where
  "str_int i = (if i < 0 then CHR ''-'' # str_nat (nat (- i)) else str_nat (nat i))"

text \<open>
  \<^verbatim>\<open>xs[a:b]\<close>: a negative index counts from the end, and both indices are clamped to
  the list.
\<close>

definition py_slice :: "'a list \<Rightarrow> int \<Rightarrow> int \<Rightarrow> 'a list" where
  "py_slice xs a b =
     (let n = int (length xs);
          clamp = (\<lambda>i. if i < 0 then max (i + n) 0 else min i n);
          lo = clamp a;
          hi = clamp b
      in take (nat (hi - lo)) (drop (nat lo) xs))"

subsection \<open>The tool-request parser\<close>

text \<open>\<^verbatim>\<open>@dataclass class ToolRequest\<close>\<close>

record ToolRequest =
  tool :: string
  file_path :: "string option"
  start_line :: "int option"
  end_line :: "int option"

text \<open>Truth value of an \<^verbatim>\<open>Optional[str]\<close> and of an \<^verbatim>\<open>Optional[int]\<close>.\<close>

definition truthy_str :: "string option \<Rightarrow> bool" where
  "truthy_str v = (case v of None \<Rightarrow> False | Some s \<Rightarrow> s \<noteq> [])"

definition truthy_int :: "int option \<Rightarrow> bool" where
  "truthy_int v = (case v of None \<Rightarrow> False | Some n \<Rightarrow> n \<noteq> 0)"

text \<open>
  The body of \<^verbatim>\<open>for j in range(i + 1, min(i + 5, len(lines)))\<close> on the variables
  \<^verbatim>\<open>file_path\<close>, \<^verbatim>\<open>start_line\<close>, \<^verbatim>\<open>end_line\<close>; a \<^verbatim>\<open>ValueError\<close> of
  \<^verbatim>\<open>int\<close> is caught and leaves the variable as it was.
\<close>

definition scan_request_line ::
  "string \<Rightarrow> string option \<times> int option \<times> int option
     \<Rightarrow> error + string option \<times> int option \<times> int option" where
  "scan_request_line raw vars =
     (case vars of (file_path', start_line', end_line') \<Rightarrow>
        let next_line = strip raw
        in if startswith next_line ''FILE:'' then
             (case field_value next_line of
                Inl e \<Rightarrow> Inl e
              | Inr v \<Rightarrow> Inr (Some v, start_line', end_line'))
           else if startswith next_line ''START_LINE:'' then
             (case field_value next_line of
                Inl e \<Rightarrow> Inl e
              | Inr v \<Rightarrow>
                  (case py_int v of
                     None \<Rightarrow> Inr (file_path', start_line', end_line')
                   | Some n \<Rightarrow> Inr (file_path', Some n, end_line')))
           else if startswith next_line ''END_LINE:'' then
             (case field_value next_line of
                Inl e \<Rightarrow> Inl e
              | Inr v \<Rightarrow>
                  (case py_int v of
                     None \<Rightarrow> Inr (file_path', start_line', end_line')
                   | Some n \<Rightarrow> Inr (file_path', start_line', Some n)))
           else Inr (file_path', start_line', end_line'))"

text \<open>
  The \<^verbatim>\<open>try\<close> block entered at a marker line \<open>line = lines[i].strip()\<close>: the request
  to append, if any, or the exception.
\<close>

definition parse_marker :: "string list \<Rightarrow> nat \<Rightarrow> string \<Rightarrow> error + ToolRequest option" where
  "parse_marker lines i line =
     (case field_value line of
        Inl e \<Rightarrow> Inl e
      | Inr tool_type \<Rightarrow>
          (case for_each scan_request_line
                  (map (\<lambda>j. lines ! j) [i + 1 ..< min (i + 5) (length lines)])
                  (None, None, None) of
             Inl e \<Rightarrow> Inl e
           | Inr (file_path', start_line', end_line') \<Rightarrow>
               if truthy_str file_path'
               then Inr (Some \<lparr> tool = tool_type, file_path = file_path',
                                start_line = start_line', end_line = end_line' \<rparr>)
               else Inr None))"

text \<open>
  One pass of the \<^verbatim>\<open>while\<close> loop at index \<open>i\<close>; the handler of the \<^verbatim>\<open>try\<close>
  block logs the exception and appends nothing.
\<close>

definition tool_request_step :: "string list \<Rightarrow> nat \<Rightarrow> ToolRequest list \<Rightarrow> ToolRequest list" where
  "tool_request_step lines i tool_requests =
     (let line = strip (lines ! i)
      in if startswith line ''TOOL_REQUEST:'' then
           (case parse_marker lines i line of
              Inl e \<Rightarrow> tool_requests
            | Inr None \<Rightarrow> tool_requests
            | Inr (Some r) \<Rightarrow> tool_requests @ [r])
         else tool_requests)"

function parse_tool_requests_loop ::
  "string list \<Rightarrow> nat \<Rightarrow> ToolRequest list \<Rightarrow> ToolRequest list" where
  "parse_tool_requests_loop lines i tool_requests =
     (if i < length lines
      then parse_tool_requests_loop lines (i + 1) (tool_request_step lines i tool_requests)
      else tool_requests)"
  by pat_completeness auto
termination
  by (relation "measure (\<lambda>(lines, i, tool_requests). length lines - i)") auto

text \<open>\<^verbatim>\<open>parse_tool_requests\<close>\<close>

definition parse_tool_requests :: "string \<Rightarrow> ToolRequest list" where
  "parse_tool_requests response_text =
     parse_tool_requests_loop (split_char NL response_text) 0 []"

subsection \<open>The collaborators\<close>

datatype role = User | Assistant

text \<open>
  The providers the orchestrator calls, with an exception as \<open>Inl\<close>:
  \<^item> \<open>repo\<close> is \<^verbatim>\<open>self.repo\<close>: \<open>None\<close> in local mode, else the text that
    \<^verbatim>\<open>get_contents(path).decoded_content.decode('utf-8')\<close> gives for a path;
  \<^item> \<open>path_exists\<close> and \<open>read_text\<close> are \<^verbatim>\<open>Path(p).exists()\<close> and
    \<^verbatim>\<open>Path(p).read_text(encoding='utf-8')\<close>;
  \<^item> \<open>claude k messages\<close> is the text of the reply to the \<open>k\<close>-th call
    (counted from 0 within one analysis) of \<^verbatim>\<open>self.claude.messages.create\<close> with the
    conversation \<open>messages\<close>; the system prompt, the model and the other arguments are
    the same at every call.
\<close>

record env =
  repo :: "(string \<Rightarrow> error + string) option"
  path_exists :: "string \<Rightarrow> error + bool"
  read_text :: "string \<Rightarrow> error + string"
  claude :: "nat \<Rightarrow> (role \<times> string) list \<Rightarrow> error + string"

text \<open>\<^verbatim>\<open>str(e)\<close> of an exception.\<close>

fun str_error :: "error \<Rightarrow> string" where
  "str_error IndexError = ''list index out of range''"
| "str_error (ProviderError msg) = msg"

subsection \<open>The content fetcher\<close>

text \<open>
  The first part of \<^verbatim>\<open>read_file_content\<close>, up to the assignment of \<^verbatim>\<open>content\<close>:
  either a \<^verbatim>\<open>return\<close> of a sentinel, or the content, or an exception that reaches
  the outer handler.
\<close>

datatype fetched = Returned string | Content string

definition fetch_content :: "env \<Rightarrow> string \<Rightarrow> error + fetched" where
  "fetch_content e file_path' =
     (case repo e of
        Some get_contents \<Rightarrow>
          (case get_contents file_path' of
             Inl ex \<Rightarrow> Inr (Returned (''Error reading file: '' @ str_error ex))
           | Inr content \<Rightarrow> Inr (Content content))
      | None \<Rightarrow>
          (case path_exists e file_path' of
             Inl ex \<Rightarrow> Inl ex
           | Inr found \<Rightarrow>
               if \<not> found then Inr (Returned (''File not found: '' @ file_path'))
               else (case read_text e file_path' of
                       Inl ex \<Rightarrow> Inl ex
                     | Inr content \<Rightarrow> Inr (Content content))))"

text \<open>\<^verbatim>\<open>read_file_content\<close>\<close>

definition read_file_content :: "env \<Rightarrow> string \<Rightarrow> int option \<Rightarrow> int option \<Rightarrow> string" where
  "read_file_content e file_path' start_line' end_line' =
     (case fetch_content e file_path' of
        Inl ex \<Rightarrow> ''Error reading file: '' @ str_error ex
      | Inr (Returned s) \<Rightarrow> s
      | Inr (Content content) \<Rightarrow>
          if truthy_int start_line' \<or> truthy_int end_line' then
            let lines = split_char NL content;
                start = (case start_line' of
                           None \<Rightarrow> 0
                         | Some n \<Rightarrow> if n \<noteq> 0 then n - 1 else 0);
                end' = (case end_line' of
                          None \<Rightarrow> int (length lines)
                        | Some n \<Rightarrow> if n \<noteq> 0 then n else int (length lines));
                content' = join [NL] (py_slice lines start end')
            in ''# '' @ file_path' @ '' lines '' @ str_int (start + 1) @ ''-'' @ str_int end'
                 @ [NL] @ content'
          else ''# '' @ file_path' @ [NL] @ content)"

subsection \<open>The direct analysis path\<close>

text \<open>The body of \<^verbatim>\<open>for file_path in file_paths\<close> of \<^verbatim>\<open>analyze_bug_direct\<close>.\<close>

definition add_file_content :: "env \<Rightarrow> string \<Rightarrow> string \<Rightarrow> string" where
  "add_file_content e file_path' comprehensive_prompt =
     (let file_content = read_file_content e file_path' None None
      in if \<not> contains file_content ''Error reading file''
         then comprehensive_prompt @ [NL] @ ''```python'' @ [NL] @ file_content @ [NL]
                @ ''```'' @ [NL]
         else comprehensive_prompt)"

definition prompt_closing :: string where
  "prompt_closing =
     [NL] @ ''Provide your analysis in this format:'' @ [NL]
     @ ''<analysis>'' @ [NL]
     @ ''ROOT_CAUSE: Brief description of the root cause'' @ [NL]
     @ ''EXPLANATION: Detailed explanation of why this issue occurs'' @ [NL]
     @ ''CONFIDENCE: HIGH/MEDIUM/LOW based on available evidence'' @ [NL]
     @ ''</analysis>'' @ [NL]
     @ [NL]
     @ ''<solution>'' @ [NL]
     @ ''Provide the corrected code with clear explanations'' @ [NL]
     @ ''</solution>'' @ [NL]"

text \<open>
  The prompt that \<^verbatim>\<open>analyze_bug_direct\<close> sends; \<open>file_paths\<close> is \<open>None\<close> for the
  default argument.
\<close>

definition comprehensive_prompt :: "env \<Rightarrow> string \<Rightarrow> string list option \<Rightarrow> string" where
  "comprehensive_prompt e issue_description file_paths =
     (let p0 = [NL] @ issue_description @ [NL, NL]
                 @ ''Please analyze this systematically and identify the root cause.'' @ [NL];
          p1 = (case file_paths of
                  None \<Rightarrow> p0
                | Some paths \<Rightarrow>
                    if paths \<noteq> []
                    then fold (add_file_content e) paths
                           (p0 @ [NL, NL] @ ''Relevant file contents:'' @ [NL])
                    else p0)
      in p1 @ prompt_closing)"

text \<open>\<^verbatim>\<open>analyze_bug_direct\<close>: \<open>None\<close> when the call of the model raises.\<close>

definition analyze_bug_direct :: "env \<Rightarrow> string \<Rightarrow> string list option \<Rightarrow> BugAnalysis option" where
  "analyze_bug_direct e issue_description file_paths =
     (case claude e 0 [(User, comprehensive_prompt e issue_description file_paths)] of
        Inl ex \<Rightarrow> None
      | Inr response_text \<Rightarrow>
          (case extract_analysis response_text of
             Some analysis \<Rightarrow>
               Some (analysis\<lparr> reasoning_trace :=
                       [''Direct analysis: '' @ take 200 response_text @ ''...''] \<rparr>)
           | None \<Rightarrow> Some (create_fallback_analysis response_text)))"

subsection \<open>The ReAct analysis path\<close>

text \<open>
  The local variables of \<^verbatim>\<open>_analyze_bug_react\<close>, and two logs of its calls of the
  collaborators: \<open>fetch_log\<close> lists the calls of \<^verbatim>\<open>read_file_content\<close> (path, start
  line, end line) in order, and \<open>model_calls\<close> counts the calls of the model.
\<close>

record react_state =
  messages :: "(role \<times> string) list"
  iteration :: int
  trace :: "string list"
  requested_files :: "string set"
  fetch_log :: "(string \<times> int option \<times> int option) list"
  model_calls :: nat

definition forcing_instruction :: string where
  "forcing_instruction =
     ''Please provide your final analysis now with <analysis> and <solution> blocks.''"

text \<open>The user turn that carries a fetched file.\<close>

definition file_content_turn :: "string \<Rightarrow> string \<Rightarrow> string" where
  "file_content_turn p file_content =
     ''File content for '' @ p @ '':'' @ [NL] @ file_content @ [NL, NL]
     @ ''Now please provide your final analysis with <analysis> and <solution> blocks.''"

text \<open>
  The body of \<^verbatim>\<open>for tool_request in tool_requests\<close>, on the state and the flag
  \<^verbatim>\<open>new_files_added\<close>.
\<close>

definition process_tool_request ::
  "env \<Rightarrow> ToolRequest \<Rightarrow> react_state \<times> bool \<Rightarrow> react_state \<times> bool" where
  "process_tool_request e tool_request acc =
     (case acc of (st, new_files_added) \<Rightarrow>
        if tool tool_request = ''read_file'' \<and> truthy_str (file_path tool_request) then
          (case file_path tool_request of
             None \<Rightarrow> (st, new_files_added)
           | Some p \<Rightarrow>
               if p \<notin> requested_files st then
                 let file_content =
                       read_file_content e p (start_line tool_request) (end_line tool_request)
                 in (st\<lparr> messages := messages st @ [(User, file_content_turn p file_content)],
                          requested_files := insert p (requested_files st),
                          fetch_log := fetch_log st @
                            [(p, start_line tool_request, end_line tool_request)] \<rparr>,
                     True)
               else (st, new_files_added))
        else (st, new_files_added))"

text \<open>The entry of \<^verbatim>\<open>reasoning_trace\<close> for one reply.\<close>

definition trace_entry :: "int \<Rightarrow> string \<Rightarrow> string" where
  "trace_entry iteration' response_text =
     ''Iteration '' @ str_int (iteration' + 1) @ '': '' @ take 200 response_text @ ''...''"

text \<open>
  The branch \<^verbatim>\<open>if tool_requests\<close> of the loop body, up to \<^verbatim>\<open>continue\<close>: the
  state after it.
\<close>

definition handle_tool_requests ::
  "env \<Rightarrow> string \<Rightarrow> ToolRequest list \<Rightarrow> react_state \<Rightarrow> react_state" where
  "handle_tool_requests e response_text tool_requests st1 =
     (let st2 = st1\<lparr> messages := messages st1 @ [(Assistant, response_text)] \<rparr>;
          (st3, new_files_added) = fold (process_tool_request e) tool_requests (st2, False);
          st4 = (if \<not> new_files_added
                 then st3\<lparr> messages := messages st3 @ [(User, forcing_instruction)] \<rparr>
                 else st3)
      in st4\<lparr> iteration := iteration st4 + 1 \<rparr>)"

text \<open>
  One pass through the body of \<^verbatim>\<open>while iteration < max_iterations\<close>: the analysis
  when the pass returns one, and the state after the pass.
\<close>

definition react_iteration :: "env \<Rightarrow> react_state \<Rightarrow> BugAnalysis option \<times> react_state" where
  "react_iteration e st =
     (case claude e (model_calls st) (messages st) of
        Inl ex \<Rightarrow>
          (None, st\<lparr> iteration := iteration st + 1, model_calls := model_calls st + 1 \<rparr>)
      | Inr response_text \<Rightarrow>
          let st1 = st\<lparr> model_calls := model_calls st + 1,
                        trace := trace st @ [trace_entry (iteration st) response_text] \<rparr>;
              tool_requests = parse_tool_requests response_text
          in if tool_requests \<noteq> [] then
               (None, handle_tool_requests e response_text tool_requests st1)
             else
               (case extract_analysis response_text of
                  Some analysis \<Rightarrow> (Some (analysis\<lparr> reasoning_trace := trace st1 \<rparr>), st1)
                | None \<Rightarrow> (None, st1)))"

definition exhausted_text :: string where
  "exhausted_text = ''Analysis attempted but max iterations reached''"

text \<open>
  The loop can only go round again when \<open>iteration\<close> has grown: the parser always
  gives a record, so the test \<^verbatim>\<open>if analysis\<close> never fails.
\<close>

lemma extract_analysis_try_Some:
  assumes "extract_analysis_try response_text = Inr r"
  shows "r \<noteq> None"
proof (cases "re_search_tag ''<analysis>'' ''</analysis>'' response_text")
  case None
  with assms show ?thesis
    by (auto simp add: extract_analysis_try_def)
next
  case (Some m)
  obtain analysis_text rest where m: "m = (analysis_text, rest)"
    by (cases m)
  show ?thesis
  proof (cases "for_each scan_analysis_line (split_char NL analysis_text)
                  ([], [], ''MEDIUM'')")
    case (Inl ex)
    with assms Some m show ?thesis
      by (auto simp add: extract_analysis_try_def)
  next
    case (Inr v)
    obtain a b c where "v = (a, b, c)"
      by (cases v)
    with assms Some m Inr show ?thesis
      by (auto simp add: extract_analysis_try_def Let_def)
  qed
qed

lemma extract_analysis_Some:
  "extract_analysis response_text \<noteq> None"
  by (auto simp: extract_analysis_def split: sum.splits dest: extract_analysis_try_Some)

lemma process_tool_request_iteration:
  "iteration (fst (process_tool_request e tr acc)) = iteration (fst acc)"
  by (cases acc) (simp add: process_tool_request_def Let_def split: option.splits)

lemma process_tool_requests_iteration:
  "iteration (fst (fold (process_tool_request e) trs acc)) = iteration (fst acc)"
  by (induction trs arbitrary: acc) (simp_all add: process_tool_request_iteration)

lemma handle_tool_requests_iteration:
  "iteration (handle_tool_requests e response_text trs st1) = iteration st1 + 1"
proof -
  obtain st3 new_files_added where f:
    "fold (process_tool_request e) trs
       (st1\<lparr> messages := messages st1 @ [(Assistant, response_text)] \<rparr>, False)
     = (st3, new_files_added)"
    by (rule prod.exhaust)
  have "iteration st3 = iteration st1"
    using process_tool_requests_iteration [of e trs
            "(st1\<lparr> messages := messages st1 @ [(Assistant, response_text)] \<rparr>, False)"]
    unfolding f by simp
  then show ?thesis
    unfolding handle_tool_requests_def Let_def f by simp
qed

lemma react_iteration_again:
  assumes "react_iteration e st = (None, st')"
  shows "iteration st' = iteration st + 1"
proof (cases "claude e (model_calls st) (messages st)")
  case (Inl ex)
  with assms show ?thesis by (auto simp: react_iteration_def)
next
  case (Inr response_text)
  show ?thesis
  proof (cases "parse_tool_requests response_text = []")
    case True
    with Inr assms extract_analysis_Some [of response_text] show ?thesis
      by (auto simp: react_iteration_def Let_def split: option.splits)
  next
    case False
    with Inr assms have "st' = handle_tool_requests e response_text
        (parse_tool_requests response_text)
        (st\<lparr> model_calls := model_calls st + 1,
             trace := trace st @ [trace_entry (iteration st) response_text] \<rparr>)"
      by (simp add: react_iteration_def Let_def)
    then show ?thesis
      by (simp add: handle_tool_requests_iteration)
  qed
qed

text \<open>
  The \<^verbatim>\<open>while\<close> loop of \<^verbatim>\<open>_analyze_bug_react\<close>, with the final state beside the
  result; after the loop, the fallback record of the fixed text.
\<close>

function react_loop :: "env \<Rightarrow> int \<Rightarrow> react_state \<Rightarrow> BugAnalysis \<times> react_state" where
  "react_loop e max_iterations st =
     (if iteration st < max_iterations then
        (case react_iteration e st of
           (Some analysis, st') \<Rightarrow> (analysis, st')
         | (None, st') \<Rightarrow> react_loop e max_iterations st')
      else (create_fallback_analysis exhausted_text, st))"
  by pat_completeness auto
termination
proof (relation "measure (\<lambda>(e, max_iterations, st). nat (max_iterations - iteration st))")
  show "wf (measure (\<lambda>(e, max_iterations, st). nat (max_iterations - iteration st)))"
    by simp
next
  fix e max_iterations st x y
  assume lt: "iteration st < max_iterations" and "(x, y) = react_iteration e st"
    and "x = None"
  then have "react_iteration e st = (None, y)"
    by simp
  then have "iteration y = iteration st + 1"
    by (rule react_iteration_again)
  with lt
  show "((e, max_iterations, y), (e, max_iterations, st))
          \<in> measure (\<lambda>(e, max_iterations, st). nat (max_iterations - iteration st))"
    by simp
qed

definition initial_state :: "string \<Rightarrow> react_state" where
  "initial_state issue_description =
     \<lparr> messages =
         [(User, ''Please analyze this bug report and identify the root cause:'' @ [NL, NL]
                   @ issue_description)],
       iteration = 0,
       trace = [],
       requested_files = {},
       fetch_log = [],
       model_calls = 0 \<rparr>"

text \<open>\<^verbatim>\<open>_analyze_bug_react\<close>\<close>

definition analyze_bug_react :: "env \<Rightarrow> string \<Rightarrow> int \<Rightarrow> BugAnalysis" where
  "analyze_bug_react e issue_description max_iterations =
     fst (react_loop e max_iterations (initial_state issue_description))"

declare thinking_findall.simps [simp del]
declare parse_tool_requests_loop.simps [simp del]
declare react_loop.simps [simp del]

section \<open>Properties of the ReAct path\<close>

subsection \<open>One pass of the loop\<close>

lemma react_iteration_error:
  assumes "claude e (model_calls st) (messages st) = Inl ex"
  shows "react_iteration e st =
           (None, st\<lparr> iteration := iteration st + 1, model_calls := model_calls st + 1 \<rparr>)"
  using assms by (simp add: react_iteration_def)

lemma react_iteration_tools:
  assumes "claude e (model_calls st) (messages st) = Inr response_text"
    and "parse_tool_requests response_text \<noteq> []"
  shows "react_iteration e st =
           (None, handle_tool_requests e response_text (parse_tool_requests response_text)
                    (st\<lparr> model_calls := model_calls st + 1,
                         trace := trace st @ [trace_entry (iteration st) response_text] \<rparr>))"
  using assms by (simp add: react_iteration_def Let_def)

lemma react_iteration_final:
  assumes "claude e (model_calls st) (messages st) = Inr response_text"
    and "parse_tool_requests response_text = []"
    and "extract_analysis response_text = Some analysis"
  shows "react_iteration e st =
           (Some (analysis\<lparr> reasoning_trace :=
                             trace st @ [trace_entry (iteration st) response_text] \<rparr>),
            st\<lparr> model_calls := model_calls st + 1,
                trace := trace st @ [trace_entry (iteration st) response_text] \<rparr>)"
  using assms by (simp add: react_iteration_def Let_def)

text \<open>The loop of requests changes neither the counter of model calls nor the trace.\<close>

lemma process_tool_request_model_calls:
  "model_calls (fst (process_tool_request e tr acc)) = model_calls (fst acc)"
  by (cases acc) (simp add: process_tool_request_def Let_def split: option.splits)

lemma process_tool_requests_model_calls:
  "model_calls (fst (fold (process_tool_request e) trs acc)) = model_calls (fst acc)"
  by (induction trs arbitrary: acc) (simp_all add: process_tool_request_model_calls)

lemma handle_tool_requests_model_calls:
  "model_calls (handle_tool_requests e response_text trs st1) = model_calls st1"
proof -
  obtain st3 new_files_added where f:
    "fold (process_tool_request e) trs
       (st1\<lparr> messages := messages st1 @ [(Assistant, response_text)] \<rparr>, False)
     = (st3, new_files_added)"
    by (rule prod.exhaust)
  have "model_calls st3 = model_calls st1"
    using process_tool_requests_model_calls [of e trs
            "(st1\<lparr> messages := messages st1 @ [(Assistant, response_text)] \<rparr>, False)"]
    unfolding f by simp
  then show ?thesis
    unfolding handle_tool_requests_def Let_def f by simp
qed

text \<open>A request that is not a new \<^verbatim>\<open>read_file\<close> leaves the state and the flag alone.\<close>

definition fetches_new :: "react_state \<Rightarrow> ToolRequest \<Rightarrow> bool" where
  "fetches_new st tr =
     (tool tr = ''read_file'' \<and>
      (case file_path tr of None \<Rightarrow> False | Some p \<Rightarrow> p \<noteq> [] \<and> p \<notin> requested_files st))"

lemma process_tool_request_skip:
  "\<not> fetches_new st tr \<Longrightarrow> process_tool_request e tr (st, b) = (st, b)"
  by (auto simp: fetches_new_def process_tool_request_def truthy_str_def Let_def
           split: option.splits)

lemma process_tool_requests_skip:
  "list_all (\<lambda>tr. \<not> fetches_new st tr) trs \<Longrightarrow>
     fold (process_tool_request e) trs (st, b) = (st, b)"
  by (induction trs) (simp_all add: process_tool_request_skip)

lemma fetches_new_same_files:
  "requested_files st' = requested_files st \<Longrightarrow> fetches_new st' tr = fetches_new st tr"
  by (cases "file_path tr") (simp_all add: fetches_new_def)

lemma fetches_new_messages [simp]:
  "fetches_new (st\<lparr> messages := m \<rparr>) tr = fetches_new st tr"
  by (cases "file_path tr") (simp_all add: fetches_new_def)

lemma handle_tool_requests_skip:
  assumes "list_all (\<lambda>tr. \<not> fetches_new st1 tr) trs"
  shows "handle_tool_requests e response_text trs st1 =
           st1\<lparr> messages := messages st1 @
                   [(Assistant, response_text), (User, forcing_instruction)],
                iteration := iteration st1 + 1 \<rparr>"
proof -
  have "fold (process_tool_request e) trs
          (st1\<lparr> messages := messages st1 @ [(Assistant, response_text)] \<rparr>, False)
        = (st1\<lparr> messages := messages st1 @ [(Assistant, response_text)] \<rparr>, False)"
    using assms by (intro process_tool_requests_skip) simp
  then show ?thesis
    unfolding handle_tool_requests_def Let_def by simp
qed

text \<open>
  A concrete local-mode environment for the examples: the only file is \<^verbatim>\<open>a.py\<close>, of
  two lines; the model is a parameter.
\<close>

definition example_env :: "(nat \<Rightarrow> (role \<times> string) list \<Rightarrow> error + string) \<Rightarrow> env" where
  "example_env model =
     \<lparr> repo = None,
       path_exists = (\<lambda>p. Inr (p = ''a.py'')),
       read_text = (\<lambda>p. Inr (''x = 1'' @ [NL] @ ''y = 2'')),
       claude = model \<rparr>"

lemma process_tool_request_fetch:
  assumes "fetches_new st tr" and "file_path tr = Some p"
  shows "process_tool_request e tr (st, b) =
           (st\<lparr> messages := messages st @
                   [(User, file_content_turn p
                             (read_file_content e p (start_line tr) (end_line tr)))],
                requested_files := insert p (requested_files st),
                fetch_log := fetch_log st @ [(p, start_line tr, end_line tr)] \<rparr>,
            True)"
  using assms
  by (simp add: fetches_new_def process_tool_request_def truthy_str_def Let_def)

text \<open>Three models for the examples: a final answer, a tool request, a provider error.\<close>

definition final_model :: "nat \<Rightarrow> (role \<times> string) list \<Rightarrow> error + string" where
  "final_model k msgs = Inr ''The cache is never invalidated.''"

definition tool_model :: "nat \<Rightarrow> (role \<times> string) list \<Rightarrow> error + string" where
  "tool_model k msgs = Inr (''TOOL_REQUEST: read_file'' @ [NL] @ ''FILE: a.py'')"

definition failing_model :: "nat \<Rightarrow> (role \<times> string) list \<Rightarrow> error + string" where
  "failing_model k msgs = Inl (ProviderError ''overloaded'')"

lemma parse_final_reply:
  "parse_tool_requests ''The cache is never invalidated.'' = []"
  by code_simp

lemma parse_tool_reply:
  "parse_tool_requests (''TOOL_REQUEST: read_file'' @ [NL] @ ''FILE: a.py'') =
     [\<lparr> tool = ''read_file'', file_path = Some ''a.py'',
        start_line = None, end_line = None \<rparr>]"
  by code_simp

subsection \<open>A reply without tool requests ends the invocation\<close>

text \<open>
  C9: a reply of the model with no tool requests ends the invocation in the same pass of
  the loop with a record: the parser gives a record for every text (never \<open>None\<close>), the
  pass returns it with the accumulated trace, and the iteration counter is not
  incremented. A pass whose reply has tool requests, and a pass in which the call of the
  model raises, return nothing and add one to the counter.
\<close>

theorem react_final_reply_returns:
  "(claude e (model_calls st) (messages st) = Inr response_text \<and>
    parse_tool_requests response_text = [] \<longrightarrow>
      (\<exists>analysis.
         extract_analysis response_text = Some analysis \<and>
         react_iteration e st =
           (Some (analysis\<lparr> reasoning_trace :=
                             trace st @ [trace_entry (iteration st) response_text] \<rparr>),
            st\<lparr> model_calls := model_calls st + 1,
                trace := trace st @ [trace_entry (iteration st) response_text] \<rparr>) \<and>
         iteration (snd (react_iteration e st)) = iteration st \<and>
         (iteration st < max_iterations \<longrightarrow>
            react_loop e max_iterations st =
              (analysis\<lparr> reasoning_trace :=
                          trace st @ [trace_entry (iteration st) response_text] \<rparr>,
               st\<lparr> model_calls := model_calls st + 1,
                   trace := trace st @ [trace_entry (iteration st) response_text] \<rparr>)))) \<and>
   (claude e (model_calls st) (messages st) = Inr response_text \<and>
    parse_tool_requests response_text \<noteq> [] \<longrightarrow>
      fst (react_iteration e st) = None \<and>
      iteration (snd (react_iteration e st)) = iteration st + 1) \<and>
   (claude e (model_calls st) (messages st) = Inl ex \<longrightarrow>
      fst (react_iteration e st) = None \<and>
      iteration (snd (react_iteration e st)) = iteration st + 1)"
proof (intro conjI impI)
  assume a: "claude e (model_calls st) (messages st) = Inr response_text \<and>
             parse_tool_requests response_text = []"
  obtain analysis where x: "extract_analysis response_text = Some analysis"
    using extract_analysis_Some [of response_text] by (cases "extract_analysis response_text") auto
  from a x have r: "react_iteration e st =
      (Some (analysis\<lparr> reasoning_trace :=
                        trace st @ [trace_entry (iteration st) response_text] \<rparr>),
       st\<lparr> model_calls := model_calls st + 1,
           trace := trace st @ [trace_entry (iteration st) response_text] \<rparr>)"
    by (intro react_iteration_final) simp_all
  have "iteration st < max_iterations \<longrightarrow>
          react_loop e max_iterations st =
            (analysis\<lparr> reasoning_trace :=
                        trace st @ [trace_entry (iteration st) response_text] \<rparr>,
             st\<lparr> model_calls := model_calls st + 1,
                 trace := trace st @ [trace_entry (iteration st) response_text] \<rparr>)"
    by (subst react_loop.simps) (simp add: r)
  with x r show "\<exists>analysis.
         extract_analysis response_text = Some analysis \<and>
         react_iteration e st =
           (Some (analysis\<lparr> reasoning_trace :=
                             trace st @ [trace_entry (iteration st) response_text] \<rparr>),
            st\<lparr> model_calls := model_calls st + 1,
                trace := trace st @ [trace_entry (iteration st) response_text] \<rparr>) \<and>
         iteration (snd (react_iteration e st)) = iteration st \<and>
         (iteration st < max_iterations \<longrightarrow>
            react_loop e max_iterations st =
              (analysis\<lparr> reasoning_trace :=
                          trace st @ [trace_entry (iteration st) response_text] \<rparr>,
               st\<lparr> model_calls := model_calls st + 1,
                   trace := trace st @ [trace_entry (iteration st) response_text] \<rparr>))"
    by simp
next
  assume a: "claude e (model_calls st) (messages st) = Inr response_text \<and>
             parse_tool_requests response_text \<noteq> []"
  then have r: "react_iteration e st =
      (None, handle_tool_requests e response_text (parse_tool_requests response_text)
               (st\<lparr> model_calls := model_calls st + 1,
                    trace := trace st @ [trace_entry (iteration st) response_text] \<rparr>))"
    by (intro react_iteration_tools) simp_all
  show "fst (react_iteration e st) = None"
    by (simp add: r)
  show "iteration (snd (react_iteration e st)) = iteration st + 1"
    by (simp add: r handle_tool_requests_iteration)
next
  assume a: "claude e (model_calls st) (messages st) = Inl ex"
  show "fst (react_iteration e st) = None"
    by (simp add: react_iteration_error [OF a])
  show "iteration (snd (react_iteration e st)) = iteration st + 1"
    by (simp add: react_iteration_error [OF a])
qed

theorem react_final_reply_returns_witness:
  "iteration (snd (react_loop (example_env final_model) 3 (initial_state ''bug''))) = 0 \<and>
   model_calls (snd (react_loop (example_env final_model) 3 (initial_state ''bug''))) = 1 \<and>
   reasoning_trace (fst (react_loop (example_env final_model) 3 (initial_state ''bug''))) =
     [trace_entry 0 ''The cache is never invalidated.''] \<and>
   fst (react_iteration (example_env tool_model) (initial_state ''bug'')) = None \<and>
   iteration (snd (react_iteration (example_env tool_model) (initial_state ''bug''))) = 1 \<and>
   fst (react_iteration (example_env failing_model) (initial_state ''bug'')) = None \<and>
   iteration (snd (react_iteration (example_env failing_model) (initial_state ''bug''))) = 1"
proof -
  have i: "iteration (initial_state ''bug'') = 0" "trace (initial_state ''bug'') = []"
    "model_calls (initial_state ''bug'') = 0"
    by (simp_all add: initial_state_def)
  have 1: "claude (example_env final_model) k m = Inr ''The cache is never invalidated.''"
    for k m by (simp add: example_env_def final_model_def)
  have 2: "claude (example_env tool_model) k m =
             Inr (''TOOL_REQUEST: read_file'' @ [NL] @ ''FILE: a.py'')"
    for k m by (simp add: example_env_def tool_model_def)
  have 3: "claude (example_env failing_model) k m = Inl (ProviderError ''overloaded'')"
    for k m by (simp add: example_env_def failing_model_def)
  have 4: "parse_tool_requests (''TOOL_REQUEST: read_file'' @ [NL] @ ''FILE: a.py'') \<noteq> []"
    by (simp only: parse_tool_reply) simp
  from react_final_reply_returns
         [of "example_env final_model" "initial_state ''bug''"
             "''The cache is never invalidated.''" 3 IndexError]
       1 parse_final_reply i
  have a: "iteration (snd (react_loop (example_env final_model) 3 (initial_state ''bug''))) = 0
     \<and> model_calls (snd (react_loop (example_env final_model) 3 (initial_state ''bug''))) = 1
     \<and> reasoning_trace (fst (react_loop (example_env final_model) 3 (initial_state ''bug'')))
         = [trace_entry 0 ''The cache is never invalidated.'']"
    by auto
  from react_final_reply_returns
         [of "example_env tool_model" "initial_state ''bug''"
             "''TOOL_REQUEST: read_file'' @ [NL] @ ''FILE: a.py''" 3 IndexError]
       2 4 i
  have b: "fst (react_iteration (example_env tool_model) (initial_state ''bug'')) = None \<and>
     iteration (snd (react_iteration (example_env tool_model) (initial_state ''bug''))) = 1"
    by simp
  from react_final_reply_returns
         [of "example_env failing_model" "initial_state ''bug''" "[]" 3
             "ProviderError ''overloaded''"]
       3 i
  have c: "fst (react_iteration (example_env failing_model) (initial_state ''bug'')) = None \<and>
     iteration (snd (react_iteration (example_env failing_model) (initial_state ''bug''))) = 1"
    by simp
  from a b c show ?thesis
    by simp
qed

subsection \<open>The forcing turn\<close>

text \<open>
  C3: in a pass of the loop whose reply has tool requests of which none fetches a new
  file (each is either not a \<^verbatim>\<open>read_file\<close> request with a path, or names a path
  already in the set of requested files), the turns appended to the conversation are the
  reply of the model and then the one fixed forcing instruction; no file-content turn is
  appended and no file is fetched.
\<close>

theorem forcing_turn_when_nothing_new:
  assumes "claude e (model_calls st) (messages st) = Inr response_text"
    and "parse_tool_requests response_text \<noteq> []"
    and "list_all (\<lambda>tr. \<not> fetches_new st tr) (parse_tool_requests response_text)"
  shows "messages (snd (react_iteration e st)) =
           messages st @ [(Assistant, response_text), (User, forcing_instruction)] \<and>
         fetch_log (snd (react_iteration e st)) = fetch_log st \<and>
         requested_files (snd (react_iteration e st)) = requested_files st"
proof -
  let ?st1 = "st\<lparr> model_calls := model_calls st + 1,
                  trace := trace st @ [trace_entry (iteration st) response_text] \<rparr>"
  have "fetches_new ?st1 = fetches_new st"
    by (intro ext fetches_new_same_files) simp
  then have "list_all (\<lambda>tr. \<not> fetches_new ?st1 tr) (parse_tool_requests response_text)"
    using assms(3) by simp
  then have "handle_tool_requests e response_text (parse_tool_requests response_text) ?st1 =
      ?st1\<lparr> messages := messages ?st1 @
                [(Assistant, response_text), (User, forcing_instruction)],
             iteration := iteration ?st1 + 1 \<rparr>"
    by (rule handle_tool_requests_skip)
  then show ?thesis
    by (simp add: react_iteration_tools [OF assms(1) assms(2)])
qed

theorem forcing_turn_when_nothing_new_witness:
  "messages (snd (react_iteration (example_env tool_model)
      ((initial_state ''bug'')\<lparr> requested_files := {''a.py''} \<rparr>))) =
     messages (initial_state ''bug'') @
       [(Assistant, ''TOOL_REQUEST: read_file'' @ [NL] @ ''FILE: a.py''),
        (User, forcing_instruction)] \<and>
   fetch_log (snd (react_iteration (example_env tool_model)
      ((initial_state ''bug'')\<lparr> requested_files := {''a.py''} \<rparr>))) = []"
proof -
  let ?st = "(initial_state ''bug'')\<lparr> requested_files := {''a.py''} \<rparr>"
  let ?r = "''TOOL_REQUEST: read_file'' @ [NL] @ ''FILE: a.py''"
  have 1: "claude (example_env tool_model) (model_calls ?st) (messages ?st) = Inr ?r"
    by (simp add: example_env_def tool_model_def)
  have 2: "parse_tool_requests ?r \<noteq> []"
    by (simp only: parse_tool_reply) simp
  have 3: "list_all (\<lambda>tr. \<not> fetches_new ?st tr) (parse_tool_requests ?r)"
    by (simp only: parse_tool_reply) (simp add: fetches_new_def)
  from forcing_turn_when_nothing_new [OF 1 2 3] show ?thesis
    by (simp add: initial_state_def)
qed

subsection \<open>The iteration budget\<close>

lemma exhausted_record:
  "root_cause (create_fallback_analysis exhausted_text) =
     ''Analysis attempted but max iterations reached''"
  "explanation (create_fallback_analysis exhausted_text) =
     ''Analysis attempted but max iterations reached''"
  "file_changes (create_fallback_analysis exhausted_text) ''analysis.md'' =
     Some ''Analysis attempted but max iterations reached''"
  "reasoning_trace (create_fallback_analysis exhausted_text) = []"
  "confidence (create_fallback_analysis exhausted_text) = ''MEDIUM''"
  by code_simp+

text \<open>
  C2: with the budget \<open>max_iterations = 1\<close> and a model whose reply (the first is the only
  one asked for) contains a tool request, \<^verbatim>\<open>_analyze_bug_react\<close> ends after exactly
  one pass of the loop and one call of the model, and returns the fallback record built
  from the fixed text ``Analysis attempted but max iterations reached'': a record, not an
  error and not \<open>None\<close>, with that text as root cause and explanation, confidence
  \<open>MEDIUM\<close> and an empty reasoning trace.
\<close>

theorem budget_one_exhausted:
  assumes "claude e 0 (messages (initial_state issue_description)) = Inr response_text"
    and "parse_tool_requests response_text \<noteq> []"
  shows "analyze_bug_react e issue_description 1 = create_fallback_analysis exhausted_text \<and>
         iteration (snd (react_loop e 1 (initial_state issue_description))) = 1 \<and>
         model_calls (snd (react_loop e 1 (initial_state issue_description))) = 1 \<and>
         root_cause (analyze_bug_react e issue_description 1) =
           ''Analysis attempted but max iterations reached'' \<and>
         explanation (analyze_bug_react e issue_description 1) =
           ''Analysis attempted but max iterations reached'' \<and>
         confidence (analyze_bug_react e issue_description 1) = ''MEDIUM'' \<and>
         reasoning_trace (analyze_bug_react e issue_description 1) = []"
proof -
  let ?st0 = "initial_state issue_description"
  define st' where
    "st' = handle_tool_requests e response_text (parse_tool_requests response_text)
             (?st0\<lparr> model_calls := model_calls ?st0 + 1,
                    trace := trace ?st0 @ [trace_entry (iteration ?st0) response_text] \<rparr>)"
  have i: "iteration ?st0 = 0" "model_calls ?st0 = 0"
    by (simp_all add: initial_state_def)
  have "claude e (model_calls ?st0) (messages ?st0) = Inr response_text"
    using assms(1) by (simp add: i)
  then have r: "react_iteration e ?st0 = (None, st')"
    unfolding st'_def using assms(2) by (rule react_iteration_tools)
  have it: "iteration st' = 1"
    unfolding st'_def by (simp add: handle_tool_requests_iteration i)
  have mc: "model_calls st' = 1"
    unfolding st'_def by (simp add: handle_tool_requests_model_calls i)
  have "react_loop e 1 st' = (create_fallback_analysis exhausted_text, st')"
    by (subst react_loop.simps) (simp add: it)
  then have l: "react_loop e 1 ?st0 = (create_fallback_analysis exhausted_text, st')"
    by (subst react_loop.simps) (simp add: i r)
  have a: "analyze_bug_react e issue_description 1 = create_fallback_analysis exhausted_text"
    by (simp add: analyze_bug_react_def l)
  show ?thesis
    unfolding a l using it mc by (simp add: exhausted_record)
qed

theorem budget_one_exhausted_witness:
  "analyze_bug_react (example_env tool_model) ''bug'' 1 =
     create_fallback_analysis exhausted_text \<and>
   model_calls (snd (react_loop (example_env tool_model) 1 (initial_state ''bug''))) = 1"
proof -
  have 1: "claude (example_env tool_model) 0 (messages (initial_state ''bug'')) =
             Inr (''TOOL_REQUEST: read_file'' @ [NL] @ ''FILE: a.py'')"
    by (simp add: example_env_def tool_model_def)
  have 2: "parse_tool_requests (''TOOL_REQUEST: read_file'' @ [NL] @ ''FILE: a.py'') \<noteq> []"
    by (simp only: parse_tool_reply) simp
  from budget_one_exhausted [OF 1 2] show ?thesis
    by simp
qed

subsection \<open>No file is fetched twice\<close>

text \<open>
  The invariant of the loop: the paths of the fetches made so far are pairwise different,
  and they are exactly the members of the set of requested files.
\<close>

definition fetched_once :: "react_state \<Rightarrow> bool" where
  "fetched_once st =
     (distinct (map fst (fetch_log st)) \<and> set (map fst (fetch_log st)) = requested_files st)"

lemma process_tool_request_fetched_once:
  assumes "fetched_once (fst acc)"
  shows "fetched_once (fst (process_tool_request e tr acc))"
proof (cases acc)
  case (Pair st b)
  show ?thesis
  proof (cases "fetches_new st tr")
    case True
    then obtain p where p: "file_path tr = Some p" "p \<notin> requested_files st"
      by (auto simp: fetches_new_def split: option.splits)
    from assms Pair p show ?thesis
      by (simp add: process_tool_request_fetch [OF True p(1)] fetched_once_def)
  next
    case False
    with assms Pair show ?thesis
      by (simp add: process_tool_request_skip)
  qed
qed

lemma process_tool_requests_fetched_once:
  "fetched_once (fst acc) \<Longrightarrow> fetched_once (fst (fold (process_tool_request e) trs acc))"
  by (induction trs arbitrary: acc) (simp_all add: process_tool_request_fetched_once)

lemma handle_tool_requests_fetched_once:
  assumes "fetched_once st1"
  shows "fetched_once (handle_tool_requests e response_text trs st1)"
proof -
  obtain st3 new_files_added where f:
    "fold (process_tool_request e) trs
       (st1\<lparr> messages := messages st1 @ [(Assistant, response_text)] \<rparr>, False)
     = (st3, new_files_added)"
    by (rule prod.exhaust)
  have "fetched_once (st1\<lparr> messages := messages st1 @ [(Assistant, response_text)] \<rparr>)"
    using assms by (simp add: fetched_once_def)
  then have "fetched_once st3"
    using process_tool_requests_fetched_once [of
            "(st1\<lparr> messages := messages st1 @ [(Assistant, response_text)] \<rparr>, False)" e trs]
    unfolding f by simp
  then show ?thesis
    unfolding handle_tool_requests_def Let_def f by (simp add: fetched_once_def)
qed

lemma react_iteration_fetched_once:
  assumes "fetched_once st"
  shows "fetched_once (snd (react_iteration e st))"
proof (cases "claude e (model_calls st) (messages st)")
  case (Inl ex)
  with assms show ?thesis
    by (simp add: react_iteration_error fetched_once_def)
next
  case (Inr response_text)
  have st1: "fetched_once (st\<lparr> model_calls := model_calls st + 1,
                trace := trace st @ [trace_entry (iteration st) response_text] \<rparr>)"
    using assms by (simp add: fetched_once_def)
  show ?thesis
  proof (cases "parse_tool_requests response_text = []")
    case True
    obtain analysis where "extract_analysis response_text = Some analysis"
      using extract_analysis_Some [of response_text]
      by (cases "extract_analysis response_text") auto
    with Inr True st1 show ?thesis
      by (simp add: react_iteration_final)
  next
    case False
    with Inr st1 show ?thesis
      by (simp add: react_iteration_tools handle_tool_requests_fetched_once)
  qed
qed

lemma react_loop_fetched_once:
  "fetched_once st \<Longrightarrow> fetched_once (snd (react_loop e max_iterations st))"
proof (induction e max_iterations st rule: react_loop.induct)
  case (1 e max_iterations st)
  show ?case
  proof (cases "iteration st < max_iterations")
    case False
    with "1.prems" show ?thesis
      by (subst react_loop.simps) simp
  next
    case True
    obtain r st' where r: "react_iteration e st = (r, st')"
      by (rule prod.exhaust)
    have st': "fetched_once st'"
      using react_iteration_fetched_once [OF "1.prems", of e] by (simp add: r)
    show ?thesis
    proof (cases r)
      case None
      have "fetched_once (snd (react_loop e max_iterations st'))"
        using "1.IH" [OF True r [symmetric] None st'] .
      with True r None show ?thesis
        by (subst react_loop.simps) simp
    next
      case (Some analysis)
      with True r st' show ?thesis
        by (subst react_loop.simps) simp
    qed
  qed
qed

lemma distinct_paths_at_most_once:
  "distinct (map fst xs) \<Longrightarrow> length (filter (\<lambda>f. fst f = p) xs) \<le> 1"
proof (induction xs)
  case Nil
  then show ?case by simp
next
  case (Cons x xs)
  show ?case
  proof (cases "fst x = p")
    case True
    from Cons.prems have n: "fst x \<notin> fst ` set xs"
      by simp
    have "fst f \<noteq> p" if "f \<in> set xs" for f
      using that True n by (metis imageI)
    then have "filter (\<lambda>f. fst f = p) xs = []"
      by (simp add: filter_empty_conv)
    with True show ?thesis by simp
  next
    case False
    with Cons show ?thesis by simp
  qed
qed

text \<open>
  C1: in one invocation of \<^verbatim>\<open>_analyze_bug_react\<close>, whatever the model replies and
  whatever the budget, \<^verbatim>\<open>read_file_content\<close> is called for each path at most once:
  among the calls logged during the whole invocation, at most one is for the path \<open>p\<close>.
  A request for a path that is already in the set of requested files is skipped: it
  changes neither the conversation nor the log of fetches.
\<close>

theorem react_fetches_each_path_at_most_once:
  "length (filter (\<lambda>f. fst f = p)
     (fetch_log (snd (react_loop e max_iterations (initial_state issue_description))))) \<le> 1 \<and>
   (file_path tr = Some p \<and> p \<in> requested_files st \<longrightarrow>
      process_tool_request e tr (st, new_files_added) = (st, new_files_added))"
proof
  have "fetched_once (initial_state issue_description)"
    by (simp add: fetched_once_def initial_state_def)
  then have "fetched_once (snd (react_loop e max_iterations (initial_state issue_description)))"
    by (rule react_loop_fetched_once)
  then show "length (filter (\<lambda>f. fst f = p)
     (fetch_log (snd (react_loop e max_iterations (initial_state issue_description))))) \<le> 1"
    by (intro distinct_paths_at_most_once) (simp add: fetched_once_def)
next
  show "file_path tr = Some p \<and> p \<in> requested_files st \<longrightarrow>
      process_tool_request e tr (st, new_files_added) = (st, new_files_added)"
    by (auto intro!: process_tool_request_skip simp: fetches_new_def)
qed

theorem react_fetches_each_path_at_most_once_witness:
  "length (filter (\<lambda>f. fst f = ''a.py'')
     (fetch_log (snd (react_loop (example_env tool_model) 3 (initial_state ''bug''))))) \<le> 1 \<and>
   process_tool_request (example_env tool_model)
     \<lparr> tool = ''read_file'', file_path = Some ''a.py'', start_line = None, end_line = None \<rparr>
     ((initial_state ''bug'')\<lparr> requested_files := {''a.py''} \<rparr>, False) =
     ((initial_state ''bug'')\<lparr> requested_files := {''a.py''} \<rparr>, False)"
  using react_fetches_each_path_at_most_once
          [where p = "''a.py''" and e = "example_env tool_model" and max_iterations = 3
             and issue_description = "''bug''"
             and tr = "\<lparr> tool = ''read_file'', file_path = Some ''a.py'',
                         start_line = None, end_line = None \<rparr>"
             and st = "(initial_state ''bug'')\<lparr> requested_files := {''a.py''} \<rparr>"
             and new_files_added = False]
  by simp


section \<open>Properties of the response parser\<close>

subsection \<open>The labelled lines of an analysis block\<close>

text \<open>
  The vocabulary of the statements about the block: the text after the first colon of a
  line; the lines of the block that begin, once trimmed, with a label; and the value of a
  label, the trimmed text after the first colon of the last such line (\<open>None\<close> when no
  line carries the label).
\<close>

definition after_colon :: "string \<Rightarrow> string" where
  "after_colon line = tl (dropWhile (\<lambda>c. c \<noteq> CHR '':'') line)"

definition labelled_lines :: "string \<Rightarrow> string list \<Rightarrow> string list" where
  "labelled_lines label lines = filter (\<lambda>line. startswith line label) (map strip lines)"

definition field_of :: "string \<Rightarrow> string list \<Rightarrow> string option" where
  "field_of label lines =
     (case rev (labelled_lines label lines) of
        [] \<Rightarrow> None
      | line # _ \<Rightarrow> Some (strip (after_colon line)))"

text \<open>What one line does to the variable of a label, and what the whole scan leaves in it.\<close>

definition scan_label :: "string \<Rightarrow> string \<Rightarrow> string \<Rightarrow> string" where
  "scan_label label raw v =
     (if startswith (strip raw) label then strip (after_colon (strip raw)) else v)"

definition scanned :: "string \<Rightarrow> string list \<Rightarrow> string \<Rightarrow> string" where
  "scanned label lines v = (case field_of label lines of None \<Rightarrow> v | Some x \<Rightarrow> x)"

lemma startswith_mem:
  "startswith s p \<Longrightarrow> c \<in> set p \<Longrightarrow> c \<in> set s"
  by (induction s p rule: startswith.induct) auto

lemma startswith_hd:
  "startswith s (p # ps) \<Longrightarrow> s \<noteq> [] \<and> hd s = p"
  by (cases s) auto

lemma split_once_mem:
  "sep \<in> set s \<Longrightarrow>
     split_once sep s = [takeWhile (\<lambda>c. c \<noteq> sep) s, tl (dropWhile (\<lambda>c. c \<noteq> sep) s)]"
  by (induction s) auto

lemma field_value_colon:
  "CHR '':'' \<in> set line \<Longrightarrow> field_value line = Inr (strip (after_colon line))"
  by (simp add: field_value_def py_index_def split_once_mem after_colon_def)

lemma field_value_ROOT_CAUSE:
  "startswith line ''ROOT_CAUSE:'' \<Longrightarrow> field_value line = Inr (strip (after_colon line))"
  by (rule field_value_colon) (erule startswith_mem, simp)

lemma field_value_EXPLANATION:
  "startswith line ''EXPLANATION:'' \<Longrightarrow> field_value line = Inr (strip (after_colon line))"
  by (rule field_value_colon) (erule startswith_mem, simp)

lemma field_value_CONFIDENCE:
  "startswith line ''CONFIDENCE:'' \<Longrightarrow> field_value line = Inr (strip (after_colon line))"
  by (rule field_value_colon) (erule startswith_mem, simp)

text \<open>The three labels begin with different letters: a line carries at most one.\<close>

lemma labels_exclusive:
  "startswith line ''ROOT_CAUSE:'' \<Longrightarrow> \<not> startswith line ''EXPLANATION:''"
  "startswith line ''ROOT_CAUSE:'' \<Longrightarrow> \<not> startswith line ''CONFIDENCE:''"
  "startswith line ''EXPLANATION:'' \<Longrightarrow> \<not> startswith line ''CONFIDENCE:''"
  by (auto dest!: startswith_hd)

lemma scan_analysis_line_eq:
  "scan_analysis_line raw (rc, ex, cf) =
     Inr (scan_label ''ROOT_CAUSE:'' raw rc,
          scan_label ''EXPLANATION:'' raw ex,
          scan_label ''CONFIDENCE:'' raw cf)"
proof -
  consider (r) "startswith (strip raw) ''ROOT_CAUSE:''"
    | (e) "\<not> startswith (strip raw) ''ROOT_CAUSE:''" "startswith (strip raw) ''EXPLANATION:''"
    | (c) "\<not> startswith (strip raw) ''ROOT_CAUSE:''" "\<not> startswith (strip raw) ''EXPLANATION:''"
          "startswith (strip raw) ''CONFIDENCE:''"
    | (n) "\<not> startswith (strip raw) ''ROOT_CAUSE:''" "\<not> startswith (strip raw) ''EXPLANATION:''"
          "\<not> startswith (strip raw) ''CONFIDENCE:''"
    by blast
  then show ?thesis
  proof cases
    case r
    with labels_exclusive(1,2) [OF r] field_value_ROOT_CAUSE [OF r] show ?thesis
      unfolding scan_analysis_line_def scan_label_def Let_def by simp
  next
    case e
    with labels_exclusive(3) [OF e(2)] field_value_EXPLANATION [OF e(2)] show ?thesis
      unfolding scan_analysis_line_def scan_label_def Let_def by simp
  next
    case c
    with field_value_CONFIDENCE [OF c(3)] show ?thesis
      unfolding scan_analysis_line_def scan_label_def Let_def by simp
  next
    case n
    then show ?thesis
      unfolding scan_analysis_line_def scan_label_def Let_def by simp
  qed
qed

lemma scanned_Cons:
  "scanned label (raw # lines) v = scanned label lines (scan_label label raw v)"
  by (cases "rev (labelled_lines label lines)")
     (simp_all add: scanned_def field_of_def labelled_lines_def scan_label_def)

lemma for_each_scan_analysis_line:
  "for_each scan_analysis_line lines (rc, ex, cf) =
     Inr (scanned ''ROOT_CAUSE:'' lines rc,
          scanned ''EXPLANATION:'' lines ex,
          scanned ''CONFIDENCE:'' lines cf)"
proof (induction lines arbitrary: rc ex cf)
  case Nil
  show ?case
    by (simp add: scanned_def field_of_def labelled_lines_def)
next
  case (Cons raw lines)
  show ?case
    unfolding for_each.simps scan_analysis_line_eq scanned_Cons
    by (simp add: Cons.IH)
qed

text \<open>The record of the tagged path, in terms of the values of the three labels.\<close>

lemma extract_analysis_tagged:
  assumes "re_search_tag ''<analysis>'' ''</analysis>'' response_text =
             Some (analysis_text, rest)"
  shows "\<exists>a. extract_analysis response_text = Some a \<and>
     root_cause a =
       (if scanned ''ROOT_CAUSE:'' (split_char NL analysis_text) [] \<noteq> []
        then scanned ''ROOT_CAUSE:'' (split_char NL analysis_text) []
        else ''Analysis completed'') \<and>
     explanation a =
       (if scanned ''EXPLANATION:'' (split_char NL analysis_text) [] \<noteq> []
        then scanned ''EXPLANATION:'' (split_char NL analysis_text) []
        else take 500 response_text @ ''...'') \<and>
     confidence a = scanned ''CONFIDENCE:'' (split_char NL analysis_text) ''MEDIUM''"
  unfolding extract_analysis_def extract_analysis_try_def assms option.case prod.case
    for_each_scan_analysis_line sum.case Let_def
  by simp


subsection \<open>The defaults of the tagged path\<close>

text \<open>
  C10: when the reply has an \<^verbatim>\<open><analysis>\<close> block, \<^verbatim>\<open>extract_analysis\<close> returns a
  record in which
  \<^item> \<open>root_cause\<close> is the fixed text ``Analysis completed'' if no line of the block
    carries the label \<^verbatim>\<open>ROOT_CAUSE:\<close> or the value of the label is empty;
  \<^item> \<open>explanation\<close> is the first 500 characters of the whole reply followed by
    \<^verbatim>\<open>...\<close> if no line carries \<^verbatim>\<open>EXPLANATION:\<close> or its value is empty; the three
    dots are appended also to a reply of fewer than 500 characters.
\<close>

theorem tagged_defaults:
  assumes "re_search_tag ''<analysis>'' ''</analysis>'' response_text =
             Some (analysis_text, rest)"
  shows "\<exists>a. extract_analysis response_text = Some a \<and>
     (field_of ''ROOT_CAUSE:'' (split_char NL analysis_text) = None \<or>
      field_of ''ROOT_CAUSE:'' (split_char NL analysis_text) = Some []
        \<longrightarrow> root_cause a = ''Analysis completed'') \<and>
     (field_of ''EXPLANATION:'' (split_char NL analysis_text) = None \<or>
      field_of ''EXPLANATION:'' (split_char NL analysis_text) = Some []
        \<longrightarrow> explanation a = take 500 response_text @ ''...'' \<and>
            (length response_text < 500 \<longrightarrow> explanation a = response_text @ ''...''))"
proof -
  from extract_analysis_tagged [OF assms] obtain a where
    a: "extract_analysis response_text = Some a"
    and r: "root_cause a =
       (if scanned ''ROOT_CAUSE:'' (split_char NL analysis_text) [] \<noteq> []
        then scanned ''ROOT_CAUSE:'' (split_char NL analysis_text) []
        else ''Analysis completed'')"
    and x: "explanation a =
       (if scanned ''EXPLANATION:'' (split_char NL analysis_text) [] \<noteq> []
        then scanned ''EXPLANATION:'' (split_char NL analysis_text) []
        else take 500 response_text @ ''...'')"
    by blast
  have 1: "root_cause a = ''Analysis completed''"
    if "field_of ''ROOT_CAUSE:'' (split_char NL analysis_text) = None \<or>
        field_of ''ROOT_CAUSE:'' (split_char NL analysis_text) = Some []"
    using that unfolding r scanned_def by auto
  have 2: "explanation a = take 500 response_text @ ''...''"
    if "field_of ''EXPLANATION:'' (split_char NL analysis_text) = None \<or>
        field_of ''EXPLANATION:'' (split_char NL analysis_text) = Some []"
    using that unfolding x scanned_def by auto
  from a 1 2 show ?thesis
    by auto
qed

theorem tagged_defaults_witness:
  "map_option root_cause
     (extract_analysis (''<analysis>ROOT_CAUSE:'' @ [NL] @ ''CONFIDENCE: LOW</analysis>'')) =
     Some ''Analysis completed'' \<and>
   map_option explanation
     (extract_analysis (''<analysis>ROOT_CAUSE:'' @ [NL] @ ''CONFIDENCE: LOW</analysis>'')) =
     Some (''<analysis>ROOT_CAUSE:'' @ [NL] @ ''CONFIDENCE: LOW</analysis>'' @ ''...'')"
proof -
  have 1: "re_search_tag ''<analysis>'' ''</analysis>''
             (''<analysis>ROOT_CAUSE:'' @ [NL] @ ''CONFIDENCE: LOW</analysis>'') =
           Some (''ROOT_CAUSE:'' @ [NL] @ ''CONFIDENCE: LOW'', [])"
    by code_simp
  have 2: "field_of ''ROOT_CAUSE:'' (split_char NL (''ROOT_CAUSE:'' @ [NL] @ ''CONFIDENCE: LOW''))
           = Some []"
    by code_simp
  have 3: "field_of ''EXPLANATION:'' (split_char NL (''ROOT_CAUSE:'' @ [NL] @ ''CONFIDENCE: LOW''))
           = None"
    by code_simp
  from tagged_defaults [OF 1] 2 3 show ?thesis
    by auto
qed

subsection \<open>The fields of the tagged path\<close>

text \<open>
  C4, as the code has it: when the reply has an \<^verbatim>\<open><analysis>\<close> block,
  \<^verbatim>\<open>extract_analysis\<close> returns a record in which
  \<^item> \<open>root_cause\<close> and \<open>explanation\<close> are the values of \<^verbatim>\<open>ROOT_CAUSE:\<close> and
    \<^verbatim>\<open>EXPLANATION:\<close>, provided the value is not empty: the trimmed text after the first
    colon of the last line of the block that carries the label;
  \<^item> \<open>confidence\<close> is the value of \<^verbatim>\<open>CONFIDENCE:\<close>, empty or not, and \<open>MEDIUM\<close> when
    no line carries that label.
  An empty value of \<^verbatim>\<open>ROOT_CAUSE:\<close> or \<^verbatim>\<open>EXPLANATION:\<close> is not returned as given: the
  default of the field replaces it.
\<close>

theorem tagged_fields:
  assumes "re_search_tag ''<analysis>'' ''</analysis>'' response_text =
             Some (analysis_text, rest)"
  shows "\<exists>a. extract_analysis response_text = Some a \<and>
     (\<forall>v. field_of ''ROOT_CAUSE:'' (split_char NL analysis_text) = Some v \<and> v \<noteq> []
            \<longrightarrow> root_cause a = v) \<and>
     (\<forall>v. field_of ''EXPLANATION:'' (split_char NL analysis_text) = Some v \<and> v \<noteq> []
            \<longrightarrow> explanation a = v) \<and>
     (\<forall>v. field_of ''CONFIDENCE:'' (split_char NL analysis_text) = Some v
            \<longrightarrow> confidence a = v) \<and>
     (field_of ''CONFIDENCE:'' (split_char NL analysis_text) = None
        \<longrightarrow> confidence a = ''MEDIUM'')"
proof -
  from extract_analysis_tagged [OF assms] obtain a where
    a: "extract_analysis response_text = Some a"
    and r: "root_cause a =
       (if scanned ''ROOT_CAUSE:'' (split_char NL analysis_text) [] \<noteq> []
        then scanned ''ROOT_CAUSE:'' (split_char NL analysis_text) []
        else ''Analysis completed'')"
    and x: "explanation a =
       (if scanned ''EXPLANATION:'' (split_char NL analysis_text) [] \<noteq> []
        then scanned ''EXPLANATION:'' (split_char NL analysis_text) []
        else take 500 response_text @ ''...'')"
    and c: "confidence a = scanned ''CONFIDENCE:'' (split_char NL analysis_text) ''MEDIUM''"
    by blast
  have 1: "root_cause a = v"
    if "field_of ''ROOT_CAUSE:'' (split_char NL analysis_text) = Some v \<and> v \<noteq> []" for v
    using that unfolding r scanned_def by auto
  have 2: "explanation a = v"
    if "field_of ''EXPLANATION:'' (split_char NL analysis_text) = Some v \<and> v \<noteq> []" for v
    using that unfolding x scanned_def by auto
  have 3: "confidence a = v"
    if "field_of ''CONFIDENCE:'' (split_char NL analysis_text) = Some v" for v
    using that unfolding c scanned_def by auto
  have 4: "confidence a = ''MEDIUM''"
    if "field_of ''CONFIDENCE:'' (split_char NL analysis_text) = None"
    using that unfolding c scanned_def by auto
  show ?thesis
  proof (intro exI [of _ a] conjI allI impI)
    show "extract_analysis response_text = Some a"
      by (rule a)
  qed (erule 1 2 3 4)+
qed

text \<open>
  A block with the label \<^verbatim>\<open>ROOT_CAUSE:\<close> twice and all three fields (the last value is
  returned), and a block without \<^verbatim>\<open>CONFIDENCE:\<close>.
\<close>

theorem tagged_fields_witness:
  "map_option root_cause
     (extract_analysis (''<analysis>ROOT_CAUSE: a'' @ [NL] @ ''ROOT_CAUSE: b'' @ [NL]
        @ ''EXPLANATION: e: f'' @ [NL] @ ''CONFIDENCE: HIGH</analysis>'')) = Some ''b'' \<and>
   map_option explanation
     (extract_analysis (''<analysis>ROOT_CAUSE: a'' @ [NL] @ ''ROOT_CAUSE: b'' @ [NL]
        @ ''EXPLANATION: e: f'' @ [NL] @ ''CONFIDENCE: HIGH</analysis>'')) = Some ''e: f'' \<and>
   map_option confidence
     (extract_analysis (''<analysis>ROOT_CAUSE: a'' @ [NL] @ ''ROOT_CAUSE: b'' @ [NL]
        @ ''EXPLANATION: e: f'' @ [NL] @ ''CONFIDENCE: HIGH</analysis>'')) = Some ''HIGH'' \<and>
   map_option confidence
     (extract_analysis ''<analysis>ROOT_CAUSE: a</analysis>'') = Some ''MEDIUM''"
proof -
  have 1: "re_search_tag ''<analysis>'' ''</analysis>''
             (''<analysis>ROOT_CAUSE: a'' @ [NL] @ ''ROOT_CAUSE: b'' @ [NL]
                @ ''EXPLANATION: e: f'' @ [NL] @ ''CONFIDENCE: HIGH</analysis>'') =
           Some (''ROOT_CAUSE: a'' @ [NL] @ ''ROOT_CAUSE: b'' @ [NL]
                   @ ''EXPLANATION: e: f'' @ [NL] @ ''CONFIDENCE: HIGH'', [])"
    by code_simp
  have 2: "field_of ''ROOT_CAUSE:''
             (split_char NL (''ROOT_CAUSE: a'' @ [NL] @ ''ROOT_CAUSE: b'' @ [NL]
                @ ''EXPLANATION: e: f'' @ [NL] @ ''CONFIDENCE: HIGH'')) = Some ''b''"
    by code_simp
  have 3: "field_of ''EXPLANATION:''
             (split_char NL (''ROOT_CAUSE: a'' @ [NL] @ ''ROOT_CAUSE: b'' @ [NL]
                @ ''EXPLANATION: e: f'' @ [NL] @ ''CONFIDENCE: HIGH'')) = Some ''e: f''"
    by code_simp
  have 4: "field_of ''CONFIDENCE:''
             (split_char NL (''ROOT_CAUSE: a'' @ [NL] @ ''ROOT_CAUSE: b'' @ [NL]
                @ ''EXPLANATION: e: f'' @ [NL] @ ''CONFIDENCE: HIGH'')) = Some ''HIGH''"
    by code_simp
  have 5: "re_search_tag ''<analysis>'' ''</analysis>'' ''<analysis>ROOT_CAUSE: a</analysis>'' =
           Some (''ROOT_CAUSE: a'', [])"
    by code_simp
  have 6: "field_of ''CONFIDENCE:'' (split_char NL ''ROOT_CAUSE: a'') = None"
    by code_simp
  from tagged_fields [OF 1] 2 3 4
  have a: "map_option root_cause
     (extract_analysis (''<analysis>ROOT_CAUSE: a'' @ [NL] @ ''ROOT_CAUSE: b'' @ [NL]
        @ ''EXPLANATION: e: f'' @ [NL] @ ''CONFIDENCE: HIGH</analysis>'')) = Some ''b'' \<and>
   map_option explanation
     (extract_analysis (''<analysis>ROOT_CAUSE: a'' @ [NL] @ ''ROOT_CAUSE: b'' @ [NL]
        @ ''EXPLANATION: e: f'' @ [NL] @ ''CONFIDENCE: HIGH</analysis>'')) = Some ''e: f'' \<and>
   map_option confidence
     (extract_analysis (''<analysis>ROOT_CAUSE: a'' @ [NL] @ ''ROOT_CAUSE: b'' @ [NL]
        @ ''EXPLANATION: e: f'' @ [NL] @ ''CONFIDENCE: HIGH</analysis>'')) = Some ''HIGH''"
    by auto
  from tagged_fields [OF 5] 6
  have b: "map_option confidence
     (extract_analysis ''<analysis>ROOT_CAUSE: a</analysis>'') = Some ''MEDIUM''"
    by auto
  from a b show ?thesis
    by simp
qed

text \<open>
  The reply below has all three fields, with nothing after the colon of
  \<^verbatim>\<open>ROOT_CAUSE:\<close>: the value given is the empty text, and the root cause returned is
  ``Analysis completed''.
\<close>

theorem tagged_empty_value_counterexample:
  "re_search_tag ''<analysis>'' ''</analysis>''
     (''<analysis>ROOT_CAUSE:'' @ [NL] @ ''EXPLANATION: e'' @ [NL]
        @ ''CONFIDENCE: HIGH</analysis>'') =
     Some (''ROOT_CAUSE:'' @ [NL] @ ''EXPLANATION: e'' @ [NL] @ ''CONFIDENCE: HIGH'', []) \<and>
   field_of ''ROOT_CAUSE:''
     (split_char NL (''ROOT_CAUSE:'' @ [NL] @ ''EXPLANATION: e'' @ [NL] @ ''CONFIDENCE: HIGH''))
     = Some [] \<and>
   field_of ''EXPLANATION:''
     (split_char NL (''ROOT_CAUSE:'' @ [NL] @ ''EXPLANATION: e'' @ [NL] @ ''CONFIDENCE: HIGH''))
     = Some ''e'' \<and>
   field_of ''CONFIDENCE:''
     (split_char NL (''ROOT_CAUSE:'' @ [NL] @ ''EXPLANATION: e'' @ [NL] @ ''CONFIDENCE: HIGH''))
     = Some ''HIGH'' \<and>
   map_option root_cause
     (extract_analysis (''<analysis>ROOT_CAUSE:'' @ [NL] @ ''EXPLANATION: e'' @ [NL]
        @ ''CONFIDENCE: HIGH</analysis>'')) = Some ''Analysis completed'' \<and>
   map_option root_cause
     (extract_analysis (''<analysis>ROOT_CAUSE:'' @ [NL] @ ''EXPLANATION: e'' @ [NL]
        @ ''CONFIDENCE: HIGH</analysis>'')) \<noteq> Some []"
  by code_simp


subsection \<open>The fallback record\<close>

lemma split_char_not_Nil:
  "split_char sep s \<noteq> []"
  by (induction s) (auto split: list.splits)

lemma hd_split_char:
  "hd (split_char sep s) = takeWhile (\<lambda>c. c \<noteq> sep) s"
proof (induction s)
  case Nil
  show ?case by simp
next
  case (Cons c cs)
  then show ?case
    using split_char_not_Nil [of sep cs] by (cases "split_char sep cs") auto
qed

lemma extract_analysis_untagged:
  "re_search_tag ''<analysis>'' ''</analysis>'' response_text = None \<Longrightarrow>
     extract_analysis response_text = Some (create_fallback_analysis response_text)"
  by (simp add: extract_analysis_def extract_analysis_try_def)

lemma fallback_root_cause:
  "root_cause (create_fallback_analysis response_text) =
     (if length (takeWhile (\<lambda>c. c \<noteq> CHR ''.'') response_text) > 200
      then take 200 (takeWhile (\<lambda>c. c \<noteq> CHR ''.'') response_text) @ ''...''
      else takeWhile (\<lambda>c. c \<noteq> CHR ''.'') response_text)"
  using split_char_not_Nil [of "CHR ''.''" response_text]
  by (simp add: create_fallback_analysis_def Let_def hd_split_char)

lemma fallback_root_cause_empty:
  "root_cause (create_fallback_analysis response_text) = [] \<longleftrightarrow>
     response_text = [] \<or> hd response_text = CHR ''.''"
  unfolding fallback_root_cause by (cases response_text) auto

text \<open>
  C5: \<^verbatim>\<open>extract_analysis\<close> gives a record for every reply. For a reply with no
  \<^verbatim>\<open><analysis>\<close> span the record is the fallback record:
  \<^item> \<open>root_cause\<close> is the text before the first period, cut to 200 characters and
    \<^verbatim>\<open>...\<close> when it is longer, so of at most 203 characters;
  \<^item> \<open>explanation\<close> is the reply, cut to 500 characters and \<^verbatim>\<open>...\<close> when it is longer,
    so of at most 503 characters;
  \<^item> \<open>file_changes\<close> maps \<^verbatim>\<open>analysis.md\<close> to the reply, \<open>confidence\<close> is \<open>MEDIUM\<close>,
    and \<open>reasoning_trace\<close> lists the trimmed \<^verbatim>\<open><thinking>\<close> spans.
  The root cause is not always non-empty: it is empty exactly when the reply is empty or
  begins with a period. The list \<^verbatim>\<open>response_text.split('.')\<close> is never empty, so the
  default ``Analysis provided'' of the source is never taken.
\<close>

theorem fallback_record:
  "extract_analysis reply \<noteq> None \<and>
   (re_search_tag ''<analysis>'' ''</analysis>'' response_text = None \<longrightarrow>
     (\<exists>a. extract_analysis response_text = Some a \<and>
        root_cause a =
          (if length (takeWhile (\<lambda>c. c \<noteq> CHR ''.'') response_text) > 200
           then take 200 (takeWhile (\<lambda>c. c \<noteq> CHR ''.'') response_text) @ ''...''
           else takeWhile (\<lambda>c. c \<noteq> CHR ''.'') response_text) \<and>
        length (root_cause a) \<le> 203 \<and>
        (root_cause a = [] \<longleftrightarrow> response_text = [] \<or> hd response_text = CHR ''.'') \<and>
        explanation a =
          (if length response_text > 500 then take 500 response_text @ ''...''
           else response_text) \<and>
        length (explanation a) \<le> 503 \<and>
        file_changes a = [''analysis.md'' \<mapsto> response_text] \<and>
        confidence a = ''MEDIUM'' \<and>
        reasoning_trace a = map strip (thinking_findall response_text)))"
proof (intro conjI impI)
  show "extract_analysis reply \<noteq> None"
    by (rule extract_analysis_Some)
next
  assume "re_search_tag ''<analysis>'' ''</analysis>'' response_text = None"
  then have a: "extract_analysis response_text = Some (create_fallback_analysis response_text)"
    by (rule extract_analysis_untagged)
  have 1: "length (root_cause (create_fallback_analysis response_text)) \<le> 203"
    unfolding fallback_root_cause by simp
  have 2: "explanation (create_fallback_analysis response_text) =
          (if length response_text > 500 then take 500 response_text @ ''...''
           else response_text)"
    by (simp add: create_fallback_analysis_def Let_def)
  have 3: "length (explanation (create_fallback_analysis response_text)) \<le> 503"
    unfolding 2 by simp
  have 4: "file_changes (create_fallback_analysis response_text) =
             [''analysis.md'' \<mapsto> response_text]"
    "confidence (create_fallback_analysis response_text) = ''MEDIUM''"
    "reasoning_trace (create_fallback_analysis response_text) =
       map strip (thinking_findall response_text)"
    by (simp_all add: create_fallback_analysis_def Let_def)
  show "\<exists>a. extract_analysis response_text = Some a \<and>
        root_cause a =
          (if length (takeWhile (\<lambda>c. c \<noteq> CHR ''.'') response_text) > 200
           then take 200 (takeWhile (\<lambda>c. c \<noteq> CHR ''.'') response_text) @ ''...''
           else takeWhile (\<lambda>c. c \<noteq> CHR ''.'') response_text) \<and>
        length (root_cause a) \<le> 203 \<and>
        (root_cause a = [] \<longleftrightarrow> response_text = [] \<or> hd response_text = CHR ''.'') \<and>
        explanation a =
          (if length response_text > 500 then take 500 response_text @ ''...''
           else response_text) \<and>
        length (explanation a) \<le> 503 \<and>
        file_changes a = [''analysis.md'' \<mapsto> response_text] \<and>
        confidence a = ''MEDIUM'' \<and>
        reasoning_trace a = map strip (thinking_findall response_text)"
  proof (intro exI [of _ "create_fallback_analysis response_text"] conjI)
    show "extract_analysis response_text = Some (create_fallback_analysis response_text)"
      by (rule a)
  qed (rule fallback_root_cause fallback_root_cause_empty 1 2 3 4)+
qed

text \<open>Two replies without an \<^verbatim>\<open><analysis>\<close> span whose root cause is empty.\<close>

theorem fallback_record_witness:
  "re_search_tag ''<analysis>'' ''</analysis>'' ''. The cache is stale'' = None \<and>
   map_option root_cause (extract_analysis ''. The cache is stale'') = Some [] \<and>
   map_option explanation (extract_analysis ''. The cache is stale'') =
     Some ''. The cache is stale'' \<and>
   re_search_tag ''<analysis>'' ''</analysis>'' [] = None \<and>
   map_option root_cause (extract_analysis []) = Some []"
proof -
  have 1: "re_search_tag ''<analysis>'' ''</analysis>'' ''. The cache is stale'' = None"
    by code_simp
  have 2: "re_search_tag ''<analysis>'' ''</analysis>'' [] = None"
    by code_simp
  from fallback_record [of "[]" "''. The cache is stale''"] 1
  have a: "map_option root_cause (extract_analysis ''. The cache is stale'') = Some [] \<and>
     map_option explanation (extract_analysis ''. The cache is stale'') =
       Some ''. The cache is stale''"
    by auto
  from fallback_record [of "[]" "[]"] 2
  have b: "map_option root_cause (extract_analysis []) = Some []"
    by auto
  from 1 2 a b show ?thesis
    by simp
qed


section \<open>Properties of the content fetcher and of the direct path\<close>

subsection \<open>The test for a failed fetch in the direct path\<close>

lemma contains_Cons_other:
  "c \<noteq> q \<Longrightarrow> contains (c # s) (q # qs) = contains s (q # qs)"
  by (auto simp: contains_def split: option.splits)

lemma contains_error_sentinel:
  "contains (''Error reading file: '' @ msg) ''Error reading file''"
  by (simp add: contains_def)

lemma contains_not_found_sentinel:
  "contains (''File not found: '' @ p) ''Error reading file'' =
     contains p ''Error reading file''"
  by (simp add: contains_Cons_other)

lemma read_file_content_not_found:
  "repo e = None \<Longrightarrow> path_exists e p = Inr False \<Longrightarrow>
     read_file_content e p sl el = ''File not found: '' @ p"
  by (simp add: read_file_content_def fetch_content_def)

lemma read_file_content_repo_error:
  "repo e = Some get_contents \<Longrightarrow> get_contents p = Inl ex \<Longrightarrow>
     read_file_content e p sl el = ''Error reading file: '' @ str_error ex"
  by (simp add: read_file_content_def fetch_content_def)

lemma read_file_content_exists_error:
  "repo e = None \<Longrightarrow> path_exists e p = Inl ex \<Longrightarrow>
     read_file_content e p sl el = ''Error reading file: '' @ str_error ex"
  by (simp add: read_file_content_def fetch_content_def)

lemma read_file_content_read_error:
  "repo e = None \<Longrightarrow> path_exists e p = Inr True \<Longrightarrow> read_text e p = Inl ex \<Longrightarrow>
     read_file_content e p sl el = ''Error reading file: '' @ str_error ex"
  by (simp add: read_file_content_def fetch_content_def)

lemma read_file_content_whole:
  "fetch_content e p = Inr (Content content) \<Longrightarrow>
     read_file_content e p None None = ''# '' @ p @ [NL] @ content"
  by (simp add: read_file_content_def truthy_int_def)

text \<open>The text of one file in the prompt: the fetched text between two fences.\<close>

definition fenced :: "string \<Rightarrow> string" where
  "fenced file_content = [NL] @ ''```python'' @ [NL] @ file_content @ [NL] @ ''```'' @ [NL]"

text \<open>
  C7: what \<^verbatim>\<open>analyze_bug_direct\<close> adds to the prompt for one path. The code skips a file
  when its fetched text contains ``Error reading file'' anywhere, and on no other
  condition:
  \<^item> a fetch that ends with the sentinel \<^verbatim>\<open>Error reading file: ...\<close> (the repository or
    the file system raised) adds nothing to the prompt;
  \<^item> in local mode, a path that does not exist gives the sentinel
    \<^verbatim>\<open>File not found: <path>\<close>, and this sentinel is not skipped: unless the path itself
    contains ``Error reading file'', it is added to the prompt between the fences, as if
    it were the content of the file;
  \<^item> a file that is fetched is added as header and body between the fences, unless its
    header or body contains ``Error reading file'': then it is skipped.
\<close>

theorem direct_prompt_file_block:
  "(repo e = Some get_contents \<and> get_contents p = Inl ex \<longrightarrow>
      read_file_content e p None None = ''Error reading file: '' @ str_error ex \<and>
      add_file_content e p prompt = prompt) \<and>
   (repo e = None \<and> path_exists e p = Inr False \<longrightarrow>
      read_file_content e p None None = ''File not found: '' @ p \<and>
      (\<not> contains p ''Error reading file'' \<longrightarrow>
         add_file_content e p prompt = prompt @ fenced (''File not found: '' @ p))) \<and>
   (fetch_content e p = Inr (Content content) \<longrightarrow>
      read_file_content e p None None = ''# '' @ p @ [NL] @ content \<and>
      add_file_content e p prompt =
        (if contains (''# '' @ p @ [NL] @ content) ''Error reading file'' then prompt
         else prompt @ fenced (''# '' @ p @ [NL] @ content)))"
proof (intro conjI impI)
  assume a: "repo e = Some get_contents \<and> get_contents p = Inl ex"
  then show r: "read_file_content e p None None = ''Error reading file: '' @ str_error ex"
    using read_file_content_repo_error [of e get_contents p ex None None] by simp
  show "add_file_content e p prompt = prompt"
    unfolding add_file_content_def Let_def r
    using contains_error_sentinel [of "str_error ex"] by simp
next
  assume a: "repo e = None \<and> path_exists e p = Inr False"
  then show r: "read_file_content e p None None = ''File not found: '' @ p"
    using read_file_content_not_found [of e p None None] by simp
  assume "\<not> contains p ''Error reading file''"
  then have "\<not> contains (''File not found: '' @ p) ''Error reading file''"
    by (simp only: contains_not_found_sentinel) simp
  then show "add_file_content e p prompt = prompt @ fenced (''File not found: '' @ p)"
    unfolding add_file_content_def Let_def r fenced_def by simp
next
  assume a: "fetch_content e p = Inr (Content content)"
  then show r: "read_file_content e p None None = ''# '' @ p @ [NL] @ content"
    by (rule read_file_content_whole)
  show "add_file_content e p prompt =
        (if contains (''# '' @ p @ [NL] @ content) ''Error reading file'' then prompt
         else prompt @ fenced (''# '' @ p @ [NL] @ content))"
    unfolding add_file_content_def Let_def r fenced_def by simp
qed

text \<open>
  In the environment of the examples the path \<^verbatim>\<open>missing.py\<close> does not exist: the
  sentinel goes into the prompt that is sent to the model. The file \<^verbatim>\<open>a.py\<close> exists
  and is added with its header.
\<close>

theorem direct_prompt_file_block_witness:
  "read_file_content (example_env final_model) ''missing.py'' None None =
     ''File not found: missing.py'' \<and>
   comprehensive_prompt (example_env final_model) ''bug'' (Some [''missing.py'']) =
     [NL] @ ''bug'' @ [NL, NL]
       @ ''Please analyze this systematically and identify the root cause.'' @ [NL]
       @ [NL, NL] @ ''Relevant file contents:'' @ [NL]
       @ [NL] @ ''```python'' @ [NL] @ ''File not found: missing.py'' @ [NL] @ ''```'' @ [NL]
       @ prompt_closing \<and>
   add_file_content (example_env final_model) ''a.py'' [] =
     fenced (''# a.py'' @ [NL] @ ''x = 1'' @ [NL] @ ''y = 2'')"
proof -
  let ?e = "example_env final_model"
  have 1: "repo ?e = None \<and> path_exists ?e ''missing.py'' = Inr False"
    by (simp add: example_env_def)
  have 2: "\<not> contains ''missing.py'' ''Error reading file''"
    by code_simp
  have 3: "fetch_content ?e ''a.py'' = Inr (Content (''x = 1'' @ [NL] @ ''y = 2''))"
    by (simp add: example_env_def fetch_content_def)
  have 4: "\<not> contains (''# '' @ ''a.py'' @ [NL] @ (''x = 1'' @ [NL] @ ''y = 2''))
               ''Error reading file''"
    by code_simp
  from direct_prompt_file_block
         [of ?e "\<lambda>p. Inl IndexError" "''missing.py''" IndexError _ "[]"] 1 2
  have a: "read_file_content ?e ''missing.py'' None None = ''File not found: missing.py''"
    and b: "add_file_content ?e ''missing.py'' prompt =
              prompt @ fenced ''File not found: missing.py''" for prompt
    by simp_all
  from direct_prompt_file_block
         [of ?e "\<lambda>p. Inl IndexError" "''a.py''" IndexError "[]"
             "''x = 1'' @ [NL] @ ''y = 2''"] 3 4
  have c: "add_file_content ?e ''a.py'' [] =
             fenced (''# a.py'' @ [NL] @ ''x = 1'' @ [NL] @ ''y = 2'')"
    by simp
  have d: "comprehensive_prompt ?e ''bug'' (Some [''missing.py'']) =
     [NL] @ ''bug'' @ [NL, NL]
       @ ''Please analyze this systematically and identify the root cause.'' @ [NL]
       @ [NL, NL] @ ''Relevant file contents:'' @ [NL]
       @ [NL] @ ''```python'' @ [NL] @ ''File not found: missing.py'' @ [NL] @ ''```'' @ [NL]
       @ prompt_closing"
    by (simp add: comprehensive_prompt_def Let_def b fenced_def)
  from a c d show ?thesis
    by simp
qed


subsection \<open>The result of the content fetcher\<close>

text \<open>
  The lines \<open>s\<close> to \<open>t\<close> of a text, counted from 1 and both included: the first \<open>t\<close>
  lines without the first \<open>s - 1\<close>.
\<close>

definition line_range :: "string list \<Rightarrow> nat \<Rightarrow> nat \<Rightarrow> string list" where
  "line_range lines s t = drop (s - 1) (take t lines)"

text \<open>A repository whose only file is \<^verbatim>\<open>a.py\<close>; any other path raises.\<close>

definition repo_env :: env where
  "repo_env =
     \<lparr> repo = Some (\<lambda>p. if p = ''a.py'' then Inr (''x = 1'' @ [NL] @ ''y = 2'')
                         else Inl (ProviderError ''404'')),
       path_exists = (\<lambda>p. Inr False),
       read_text = (\<lambda>p. Inl (ProviderError ''unused'')),
       claude = final_model \<rparr>"

lemma py_slice_line_range:
  assumes "1 \<le> s" and "0 \<le> t"
  shows "py_slice xs (s - 1) t = line_range xs (nat s) (nat t)"
proof -
  let ?n = "int (length xs)"
  have lo: "(if s - 1 < 0 then max (s - 1 + ?n) 0 else min (s - 1) ?n) = min (s - 1) ?n"
    using assms by simp
  have hi: "(if t < 0 then max (t + ?n) 0 else min t ?n) = min t ?n"
    using assms by simp
  have "take (nat (min t ?n - min (s - 1) ?n)) (drop (nat (min (s - 1) ?n)) xs) =
        take (nat t - (nat s - 1)) (drop (nat s - 1) xs)"
  proof (cases "s - 1 < ?n")
    case False
    then have "drop (nat (min (s - 1) ?n)) xs = []" "drop (nat s - 1) xs = []"
      using assms by (simp_all add: min_def)
    then show ?thesis by simp
  next
    case True
    then have m: "nat (min (s - 1) ?n) = nat s - 1"
      using assms by (simp add: min_def nat_diff_distrib)
    show ?thesis
    proof (cases "t \<le> ?n")
      case t: True
      then have "nat (min t ?n - min (s - 1) ?n) = nat t - (nat s - 1)"
        using True assms by (simp add: min_def nat_diff_distrib)
      then show ?thesis by (simp add: m)
    next
      case t: False
      then have "length (drop (nat s - 1) xs) \<le> nat (min t ?n - min (s - 1) ?n)"
        "length (drop (nat s - 1) xs) \<le> nat t - (nat s - 1)"
        using True assms by (simp_all add: min_def nat_diff_distrib)
      then show ?thesis by (simp add: m)
    qed
  qed
  then show ?thesis
    unfolding py_slice_def Let_def lo hi line_range_def by (simp add: drop_take)
qed

lemma startswith_append:
  "startswith (a @ b) a"
  by (induction a) simp_all

lemma fetch_content_Returned:
  assumes "fetch_content e p = Inr (Returned s)"
  shows "(\<exists>ex. s = ''Error reading file: '' @ str_error ex) \<or> s = ''File not found: '' @ p"
proof (cases "repo e")
  case None
  with assms show ?thesis
    by (auto simp: fetch_content_def split: sum.splits if_splits)
next
  case (Some get_contents)
  with assms show ?thesis
    by (auto simp: fetch_content_def split: sum.splits)
qed

lemma read_file_content_range:
  assumes "fetch_content e p = Inr (Content content)"
    and "truthy_int sl \<or> truthy_int el"
  shows "read_file_content e p sl el =
     (''# '' @ p) @ '' lines ''
       @ str_int ((case sl of None \<Rightarrow> 0 | Some n \<Rightarrow> if n \<noteq> 0 then n - 1 else 0) + 1)
       @ ''-''
       @ str_int (case el of None \<Rightarrow> int (length (split_char NL content))
                  | Some n \<Rightarrow> if n \<noteq> 0 then n else int (length (split_char NL content)))
       @ [NL]
       @ join [NL] (py_slice (split_char NL content)
           (case sl of None \<Rightarrow> 0 | Some n \<Rightarrow> if n \<noteq> 0 then n - 1 else 0)
           (case el of None \<Rightarrow> int (length (split_char NL content))
            | Some n \<Rightarrow> if n \<noteq> 0 then n else int (length (split_char NL content))))"
  using assms(2) unfolding read_file_content_def assms(1) Let_def by simp

lemma read_file_content_kind:
  "startswith (read_file_content e p sl el) ''Error reading file: '' \<or>
   startswith (read_file_content e p sl el) ''File not found: '' \<or>
   startswith (read_file_content e p sl el) (''# '' @ p)"
proof (cases "fetch_content e p")
  case (Inl ex)
  then have "read_file_content e p sl el = ''Error reading file: '' @ str_error ex"
    by (simp add: read_file_content_def)
  then show ?thesis
    using startswith_append [of "''Error reading file: ''" "str_error ex"] by simp
next
  case (Inr f)
  show ?thesis
  proof (cases f)
    case (Returned s)
    with Inr have r: "read_file_content e p sl el = s"
      by (simp add: read_file_content_def)
    from fetch_content_Returned Inr Returned
    consider ex where "s = ''Error reading file: '' @ str_error ex"
      | "s = ''File not found: '' @ p"
      by blast
    then show ?thesis
    proof cases
      case 1
      then show ?thesis
        unfolding r using startswith_append [of "''Error reading file: ''" "str_error ex"]
        by simp
    next
      case 2
      then show ?thesis
        unfolding r using startswith_append [of "''File not found: ''" p] by simp
    qed
  next
    case (Content content)
    with Inr have c: "fetch_content e p = Inr (Content content)"
      by simp
    show ?thesis
    proof (cases "truthy_int sl \<or> truthy_int el")
      case True
      show ?thesis
        unfolding read_file_content_range [OF c True]
        by (rule disjI2, rule disjI2, rule startswith_append)
    next
      case False
      then have w: "read_file_content e p sl el = (''# '' @ p) @ [NL] @ content"
        unfolding read_file_content_def c Let_def by simp
      show ?thesis
        unfolding w by (rule disjI2, rule disjI2, rule startswith_append)
    qed
  qed
qed

lemma fetch_content_Content:
  "(repo e = Some get_contents \<and> get_contents p = Inr content) \<or>
   (repo e = None \<and> path_exists e p = Inr True \<and> read_text e p = Inr content) \<Longrightarrow>
     fetch_content e p = Inr (Content content)"
  by (auto simp: fetch_content_def)

lemma read_file_content_both:
  assumes c: "fetch_content e p = Inr (Content content)" and "1 \<le> s" and "1 \<le> t"
  shows "read_file_content e p (Some s) (Some t) =
           ''# '' @ p @ '' lines '' @ str_int s @ ''-'' @ str_int t @ [NL]
             @ join [NL] (line_range (split_char NL content) (nat s) (nat t))"
proof -
  have "truthy_int (Some s) \<or> truthy_int (Some t)"
    using assms by (simp add: truthy_int_def)
  from read_file_content_range [OF c this] assms(2,3)
    py_slice_line_range [of s t "split_char NL content"]
  show ?thesis
    by simp
qed

lemma read_file_content_from:
  assumes c: "fetch_content e p = Inr (Content content)" and "1 \<le> s"
  shows "read_file_content e p (Some s) None =
           ''# '' @ p @ '' lines '' @ str_int s @ ''-''
             @ str_int (int (length (split_char NL content))) @ [NL]
             @ join [NL] (line_range (split_char NL content) (nat s)
                            (length (split_char NL content)))"
proof -
  have "truthy_int (Some s) \<or> truthy_int None"
    using assms by (simp add: truthy_int_def)
  from read_file_content_range [OF c this] assms(2)
    py_slice_line_range [of s "int (length (split_char NL content))" "split_char NL content"]
  show ?thesis
    by simp
qed

lemma read_file_content_upto:
  assumes c: "fetch_content e p = Inr (Content content)" and "1 \<le> t"
  shows "read_file_content e p None (Some t) =
           ''# '' @ p @ '' lines '' @ str_int 1 @ ''-'' @ str_int t @ [NL]
             @ join [NL] (line_range (split_char NL content) 1 (nat t))"
proof -
  have "truthy_int None \<or> truthy_int (Some t)"
    using assms by (simp add: truthy_int_def)
  from read_file_content_range [OF c this] assms(2)
    py_slice_line_range [of 1 t "split_char NL content"]
  show ?thesis
    by simp
qed

text \<open>
  C8: \<^verbatim>\<open>read_file_content\<close> returns a text in every case (the function of the model is
  total, and an exception of a provider is a value it handles):
  \<^item> the result is a sentinel, \<^verbatim>\<open>Error reading file: ...\<close> or
    \<^verbatim>\<open>File not found: <path>\<close>, or it begins with the header \<^verbatim>\<open># <path>\<close>;
  \<^item> an exception of the repository or of the file system gives
    \<^verbatim>\<open>Error reading file: <message>\<close>, and a path that does not exist in local mode
    gives \<^verbatim>\<open>File not found: <path>\<close>;
  \<^item> when the content is fetched: with no bound, the result is \<^verbatim>\<open># <path>\<close>, a line
    break and the whole content; with bounds \<open>s\<close> and \<open>t\<close>, both at least 1, it is
    \<^verbatim>\<open># <path> lines s-t\<close>, a line break and the lines \<open>s\<close> to \<open>t\<close> of the content,
    counted from 1 and both included; a missing start is 1, and a missing end is the
    number of lines of the content.
\<close>

theorem read_file_content_result:
  "(startswith (read_file_content e p sl el) ''Error reading file: '' \<or>
    startswith (read_file_content e p sl el) ''File not found: '' \<or>
    startswith (read_file_content e p sl el) (''# '' @ p)) \<and>
   (repo e = Some get_contents \<and> get_contents p = Inl ex \<longrightarrow>
      read_file_content e p sl el = ''Error reading file: '' @ str_error ex) \<and>
   (repo e = None \<and> path_exists e p = Inl ex \<longrightarrow>
      read_file_content e p sl el = ''Error reading file: '' @ str_error ex) \<and>
   (repo e = None \<and> path_exists e p = Inr True \<and> read_text e p = Inl ex \<longrightarrow>
      read_file_content e p sl el = ''Error reading file: '' @ str_error ex) \<and>
   (repo e = None \<and> path_exists e p = Inr False \<longrightarrow>
      read_file_content e p sl el = ''File not found: '' @ p) \<and>
   ((repo e = Some get_contents \<and> get_contents p = Inr content) \<or>
    (repo e = None \<and> path_exists e p = Inr True \<and> read_text e p = Inr content) \<longrightarrow>
      read_file_content e p None None = ''# '' @ p @ [NL] @ content \<and>
      (1 \<le> s \<and> 1 \<le> t \<longrightarrow>
         read_file_content e p (Some s) (Some t) =
           ''# '' @ p @ '' lines '' @ str_int s @ ''-'' @ str_int t @ [NL]
             @ join [NL] (line_range (split_char NL content) (nat s) (nat t))) \<and>
      (1 \<le> s \<longrightarrow>
         read_file_content e p (Some s) None =
           ''# '' @ p @ '' lines '' @ str_int s @ ''-''
             @ str_int (int (length (split_char NL content))) @ [NL]
             @ join [NL] (line_range (split_char NL content) (nat s)
                            (length (split_char NL content)))) \<and>
      (1 \<le> t \<longrightarrow>
         read_file_content e p None (Some t) =
           ''# '' @ p @ '' lines '' @ str_int 1 @ ''-'' @ str_int t @ [NL]
             @ join [NL] (line_range (split_char NL content) 1 (nat t))))"
proof (intro conjI impI)
  show "startswith (read_file_content e p sl el) ''Error reading file: '' \<or>
    startswith (read_file_content e p sl el) ''File not found: '' \<or>
    startswith (read_file_content e p sl el) (''# '' @ p)"
    by (rule read_file_content_kind)
next
  assume "repo e = Some get_contents \<and> get_contents p = Inl ex"
  then show "read_file_content e p sl el = ''Error reading file: '' @ str_error ex"
    using read_file_content_repo_error [of e get_contents p ex sl el] by simp
next
  assume "repo e = None \<and> path_exists e p = Inl ex"
  then show "read_file_content e p sl el = ''Error reading file: '' @ str_error ex"
    using read_file_content_exists_error [of e p ex sl el] by simp
next
  assume "repo e = None \<and> path_exists e p = Inr True \<and> read_text e p = Inl ex"
  then show "read_file_content e p sl el = ''Error reading file: '' @ str_error ex"
    using read_file_content_read_error [of e p ex sl el] by simp
next
  assume "repo e = None \<and> path_exists e p = Inr False"
  then show "read_file_content e p sl el = ''File not found: '' @ p"
    using read_file_content_not_found [of e p sl el] by simp
next
  assume "(repo e = Some get_contents \<and> get_contents p = Inr content) \<or>
    (repo e = None \<and> path_exists e p = Inr True \<and> read_text e p = Inr content)"
  then have "fetch_content e p = Inr (Content content)"
    by (rule fetch_content_Content)
  then show "read_file_content e p None None = ''# '' @ p @ [NL] @ content"
    by (rule read_file_content_whole)
next
  assume "(repo e = Some get_contents \<and> get_contents p = Inr content) \<or>
    (repo e = None \<and> path_exists e p = Inr True \<and> read_text e p = Inr content)"
  then have c: "fetch_content e p = Inr (Content content)"
    by (rule fetch_content_Content)
  assume "1 \<le> s \<and> 1 \<le> t"
  with c show "read_file_content e p (Some s) (Some t) =
           ''# '' @ p @ '' lines '' @ str_int s @ ''-'' @ str_int t @ [NL]
             @ join [NL] (line_range (split_char NL content) (nat s) (nat t))"
    by (intro read_file_content_both) simp_all
next
  assume "(repo e = Some get_contents \<and> get_contents p = Inr content) \<or>
    (repo e = None \<and> path_exists e p = Inr True \<and> read_text e p = Inr content)"
  then have c: "fetch_content e p = Inr (Content content)"
    by (rule fetch_content_Content)
  assume "1 \<le> s"
  with c show "read_file_content e p (Some s) None =
           ''# '' @ p @ '' lines '' @ str_int s @ ''-''
             @ str_int (int (length (split_char NL content))) @ [NL]
             @ join [NL] (line_range (split_char NL content) (nat s)
                            (length (split_char NL content)))"
    by (intro read_file_content_from) simp_all
next
  assume "(repo e = Some get_contents \<and> get_contents p = Inr content) \<or>
    (repo e = None \<and> path_exists e p = Inr True \<and> read_text e p = Inr content)"
  then have c: "fetch_content e p = Inr (Content content)"
    by (rule fetch_content_Content)
  assume "1 \<le> t"
  with c show "read_file_content e p None (Some t) =
           ''# '' @ p @ '' lines '' @ str_int 1 @ ''-'' @ str_int t @ [NL]
             @ join [NL] (line_range (split_char NL content) 1 (nat t))"
    by (intro read_file_content_upto) simp_all
qed

text \<open>
  The file \<^verbatim>\<open>a.py\<close> of the examples has the lines \<^verbatim>\<open>x = 1\<close> and \<^verbatim>\<open>y = 2\<close>: its
  second line alone, the file from its second line, the file up to its first line, the
  whole file; a path that does not exist, and a repository that raises.
\<close>

theorem read_file_content_result_witness:
  "read_file_content (example_env final_model) ''a.py'' (Some 2) (Some 2) =
     ''# a.py lines 2-2'' @ [NL] @ ''y = 2'' \<and>
   read_file_content (example_env final_model) ''a.py'' (Some 2) None =
     ''# a.py lines 2-2'' @ [NL] @ ''y = 2'' \<and>
   read_file_content (example_env final_model) ''a.py'' None (Some 1) =
     ''# a.py lines 1-1'' @ [NL] @ ''x = 1'' \<and>
   read_file_content (example_env final_model) ''a.py'' None None =
     ''# a.py'' @ [NL] @ ''x = 1'' @ [NL] @ ''y = 2'' \<and>
   read_file_content (example_env final_model) ''missing.py'' None None =
     ''File not found: missing.py'' \<and>
   read_file_content repo_env ''b.py'' None None = ''Error reading file: 404''"
proof -
  let ?e = "example_env final_model"
  let ?c = "''x = 1'' @ [NL] @ ''y = 2''"
  let ?g = "\<lambda>p. if p = ''a.py'' then Inr (''x = 1'' @ [NL] @ ''y = 2'')
                 else Inl (ProviderError ''404'')"
  have 1: "repo ?e = None \<and> path_exists ?e ''a.py'' = Inr True \<and>
           read_text ?e ''a.py'' = Inr ?c"
    by (simp add: example_env_def)
  have 2: "repo ?e = None \<and> path_exists ?e ''missing.py'' = Inr False"
    by (simp add: example_env_def)
  have 3: "repo repo_env = Some ?g \<and> ?g ''b.py'' = Inl (ProviderError ''404'')"
    by (simp add: repo_env_def)
  have le: "(1::int) \<le> 2 \<and> (1::int) \<le> 2" "(1::int) \<le> 2" "(1::int) \<le> 1"
    by simp_all
  note fetched = read_file_content_result
      [of ?e "''a.py''" None None ?g IndexError ?c 2 2,
       THEN conjunct2, THEN conjunct2, THEN conjunct2, THEN conjunct2, THEN conjunct2,
       THEN mp, OF disjI2, OF 1]
  note fetched' = read_file_content_result
      [of ?e "''a.py''" None None ?g IndexError ?c 2 1,
       THEN conjunct2, THEN conjunct2, THEN conjunct2, THEN conjunct2, THEN conjunct2,
       THEN mp, OF disjI2, OF 1]
  note whole = fetched [THEN conjunct1]
  note both = fetched [THEN conjunct2, THEN conjunct1, THEN mp, OF le(1)]
  note from_line = fetched [THEN conjunct2, THEN conjunct2, THEN conjunct1, THEN mp, OF le(2)]
  note up_to = fetched' [THEN conjunct2, THEN conjunct2, THEN conjunct2, THEN mp, OF le(3)]
  note not_found = read_file_content_result
      [of ?e "''missing.py''" None None ?g IndexError "[]" 1 1,
       THEN conjunct2, THEN conjunct2, THEN conjunct2, THEN conjunct2, THEN conjunct1,
       THEN mp, OF 2]
  note raised = read_file_content_result
      [of repo_env "''b.py''" None None ?g "ProviderError ''404''" "[]" 1 1,
       THEN conjunct2, THEN conjunct1, THEN mp, OF 3]
  show ?thesis
    unfolding whole both from_line up_to not_found raised by code_simp
qed

end
